theory Spec2Isabelle
  imports Complex_Main "HOL-Library.AList"
begin

section \<open>Python values and strings\<close>

text \<open>
  The pipeline passes loosely typed JSON values between its stages. A Python \<open>str\<close> is
  modelled as a \<open>string\<close> whose characters are the code points below 256; a \<open>dict\<close> is an
  association list in insertion order (looked up with \<open>map_of\<close>, stored into with
  \<open>AList.update\<close>, which overwrites in place or appends, as a dict does); an \<open>int\<close> is an
  \<open>int\<close> and a finite \<open>float\<close> is the rational number it denotes.
\<close>

datatype exn =
    TypeError
  | AttributeError
  | KeyError
  | ValueError
  | JSONDecodeError
  | OtherError

datatype json =
    JNull
  | JBool bool
  | JInt int
  | JFloat rat
  | JStr string
  | JArr "json list"
  | JObj "(string \<times> json) list"

type_synonym pydict = "(string \<times> json) list"

text \<open>\<open>str.isspace\<close> of one character: the whitespace of \<open>split\<close>, \<open>strip\<close> and the regex \<open>\s\<close>.\<close>

definition py_isspace :: "char \<Rightarrow> bool" where
  "py_isspace c =
     (let n = (of_char c :: nat)
      in (9 \<le> n \<and> n \<le> 13) \<or> (28 \<le> n \<and> n \<le> 32) \<or> n = 133 \<or> n = 160)"

text \<open>\<open>str.lower\<close>: the upper-case letters of ASCII and Latin-1 move up by 32.\<close>

definition py_lower_char :: "char \<Rightarrow> char" where
  "py_lower_char c =
     (let n = (of_char c :: nat)
      in if (65 \<le> n \<and> n \<le> 90) \<or> (192 \<le> n \<and> n \<le> 222 \<and> n \<noteq> 215)
         then char_of (n + 32) else c)"

definition py_lower :: "string \<Rightarrow> string" where
  "py_lower s = map py_lower_char s"

text \<open>
  \<open>str.split()\<close> with no argument: one pass over the text, \<open>cur\<close> holding the token being
  read (reversed); runs of whitespace separate tokens and produce no empty token.
\<close>

fun split_ws :: "string \<Rightarrow> string \<Rightarrow> string list" where
  "split_ws cur [] = (if cur = [] then [] else [rev cur])"
| "split_ws cur (c # cs) =
     (if py_isspace c
      then (if cur = [] then split_ws [] cs else rev cur # split_ws [] cs)
      else split_ws (c # cur) cs)"

definition py_split :: "string \<Rightarrow> string list" where
  "py_split s = split_ws [] s"

text \<open>\<open>sep.join(parts)\<close>.\<close>

fun py_join :: "string \<Rightarrow> string list \<Rightarrow> string" where
  "py_join sep [] = []"
| "py_join sep [x] = x"
| "py_join sep (x # y # ys) = x @ sep @ py_join sep (y # ys)"

text \<open>\<open>str.strip()\<close>.\<close>

definition py_strip :: "string \<Rightarrow> string" where
  "py_strip s = rev (dropWhile py_isspace (rev (dropWhile py_isspace s)))"

definition startswith :: "string \<Rightarrow> string \<Rightarrow> bool" where
  "startswith s p = (take (length p) s = p)"

section \<open>Validator: the search query of an insight\<close>

text \<open>
  \<^verbatim>\<open>
  def _extract_search_keywords(self, gap_text, title_text, topic):
      combined = f"{title_text} {gap_text}"[:150]
      filler = ['the', 'a', 'an', 'is', 'are', 'but', 'has', 'have', 'this', 'that',
                'these', 'those', 'been', 'being']
      words = combined.lower().split()
      keywords = [w for w in words if len(w) > 4 and w not in filler]
      search_terms = keywords[:5] + [topic]
      return " ".join(search_terms)
  \<close>
\<close>

definition filler :: "string list" where
  "filler = [''the'', ''a'', ''an'', ''is'', ''are'', ''but'', ''has'', ''have'', ''this'',
             ''that'', ''these'', ''those'', ''been'', ''being'']"

definition extract_search_keywords :: "string \<Rightarrow> string \<Rightarrow> string \<Rightarrow> string" where
  "extract_search_keywords gap_text title_text topic =
     (let combined = take 150 (title_text @ '' '' @ gap_text);
          words = py_split (py_lower combined);
          keywords = filter (\<lambda>w. length w > 4 \<and> w \<notin> set filler) words;
          search_terms = take 5 keywords @ [topic]
      in py_join '' '' search_terms)"





section \<open>Paper source client: arXiv\<close>

text \<open>
  \<^verbatim>\<open>
  @dataclass
  class Paper:
      title: str
      abstract: str
      authors: List[str]
      year: int
      url: str
  \<close>
  The \<open>url\<close> is the text of the entry's \<open>id\<close> element, which is \<open>None\<close> for an empty
  element, so the field is optional here.
\<close>

record paper =
  title :: string
  abstract :: string
  authors :: "string list"
  year :: int
  url :: "string option"











section \<open>Structured extraction\<close>

subsection \<open>The cleaning pass\<close>

text \<open>
  \<^verbatim>\<open>
  def _clean_json(self, json_str):
      json_str = re.sub(r',\s*}', '}', json_str)
      json_str = re.sub(r',\s*]', ']', json_str)
      json_str = re.sub(r'//.*?\n', '\n', json_str)
      json_str = re.sub(r'/\*.*?\*/', '', json_str, flags=re.DOTALL)
      json_str = ''.join(char for char in json_str if ord(char) >= 32 or char in '\n\r\t')
      return json_str
  \<close>
  \<open>re.sub\<close> replaces the leftmost matches, left to right, without overlap: at each
  position either a match starts there, and the scan goes on behind it, or the
  character is copied.
\<close>

text \<open>\<open>re.sub(r',\s*X', 'X', s)\<close> for a closing character \<open>X\<close>.\<close>

function sub_trailing_comma :: "char \<Rightarrow> string \<Rightarrow> string" where
  "sub_trailing_comma cl [] = []"
| "sub_trailing_comma cl (c # cs) =
     (if c = CHR '','' \<and> dropWhile py_isspace cs \<noteq> [] \<and> hd (dropWhile py_isspace cs) = cl
      then cl # sub_trailing_comma cl (tl (dropWhile py_isspace cs))
      else c # sub_trailing_comma cl cs)"
  by pat_completeness auto
termination
proof (relation "measure (\<lambda>(cl, s). length s)")
  show "wf (measure (\<lambda>(cl, s). length s))" by simp
next
  fix cl :: char and c :: char and cs :: string
  have "length (tl (dropWhile py_isspace cs)) \<le> length cs"
    using length_dropWhile_le [of py_isspace cs] by simp
  then show "((cl, tl (dropWhile py_isspace cs)), (cl, c # cs)) \<in> measure (\<lambda>(cl, s). length s)"
    by simp
next
  fix cl :: char and c :: char and cs :: string
  show "((cl, cs), (cl, c # cs)) \<in> measure (\<lambda>(cl, s). length s)" by simp
qed

text \<open>
  \<open>re.sub(r'//.*?\n', '\n', s)\<close>: the dot does not match a newline, so a match is \<open>//\<close>
  up to the next newline, and there is none when no newline follows.
\<close>

function sub_line_comments :: "string \<Rightarrow> string" where
  "sub_line_comments [] = []"
| "sub_line_comments (c # cs) =
     (if c = CHR ''/'' \<and> cs \<noteq> [] \<and> hd cs = CHR ''/'' \<and> CHR 0x0A \<in> set (tl cs)
      then CHR 0x0A # sub_line_comments (tl (dropWhile (\<lambda>d. d \<noteq> CHR 0x0A) (tl cs)))
      else c # sub_line_comments cs)"
  by pat_completeness auto
termination
proof (relation "measure length")
  show "wf (measure length)" by simp
next
  fix c :: char and cs :: string
  have "length (dropWhile (\<lambda>d. d \<noteq> CHR 0x0A) (tl cs)) \<le> length (tl cs)"
    by (rule length_dropWhile_le)
  then show "(tl (dropWhile (\<lambda>d. d \<noteq> CHR 0x0A) (tl cs)), c # cs) \<in> measure length"
    by simp
next
  fix c :: char and cs :: string
  show "(cs, c # cs) \<in> measure length" by simp
qed

text \<open>The text behind the first \<open>*/\<close>, if there is one.\<close>

fun after_comment_end :: "string \<Rightarrow> string option" where
  "after_comment_end [] = None"
| "after_comment_end [c] = None"
| "after_comment_end (c # d # ds) =
     (if c = CHR ''*'' \<and> d = CHR ''/'' then Some ds else after_comment_end (d # ds))"

text \<open>\<open>re.sub(r'/\*.*?\*/', '', s, flags=re.DOTALL)\<close>.\<close>

function sub_block_comments :: "string \<Rightarrow> string" where
  "sub_block_comments [] = []"
| "sub_block_comments (c # cs) =
     (if c = CHR ''/'' \<and> cs \<noteq> [] \<and> hd cs = CHR ''*'' \<and> after_comment_end (tl cs) \<noteq> None
      then sub_block_comments (the (after_comment_end (tl cs)))
      else c # sub_block_comments cs)"
  by pat_completeness auto

definition keep_char :: "char \<Rightarrow> bool" where
  "keep_char c = ((of_char c :: nat) \<ge> 32 \<or> c = CHR 0x0A \<or> c = CHR 0x0D \<or> c = CHR 0x09)"

lemma after_comment_end_length: "after_comment_end s = Some r \<Longrightarrow> length r < length s"
  by (induction s arbitrary: r rule: after_comment_end.induct) (auto split: if_splits)

termination sub_block_comments
proof (relation "measure length")
  show "wf (measure length)" by simp
next
  fix c :: char and cs :: string
  assume "c = CHR ''/'' \<and> cs \<noteq> [] \<and> hd cs = CHR ''*'' \<and> after_comment_end (tl cs) \<noteq> None"
  then obtain r where r: "after_comment_end (tl cs) = Some r" by auto
  from after_comment_end_length [OF r] have "length r < length (c # cs)" by simp
  with r show "(the (after_comment_end (tl cs)), c # cs) \<in> measure length" by simp
next
  fix c :: char and cs :: string
  show "(cs, c # cs) \<in> measure length" by simp
qed

definition clean_json :: "string \<Rightarrow> string" where
  "clean_json json_str =
     filter keep_char
       (sub_block_comments
         (sub_line_comments
           (sub_trailing_comma (CHR '']'') (sub_trailing_comma (CHR ''}'') json_str))))"

subsection \<open>The three searches\<close>

text \<open>
  \<open>re.search(r'```(?:json)?\s*(\[.*?\]|\{.*?\})\s*```', text, re.DOTALL)\<close>, group 1.
  At a start position the match is forced: the three backquotes, \<open>json\<close> if it is
  there, all the whitespace, an opening bracket or brace, and then (the quantifier is
  lazy) the first closing character of the same kind that is followed by whitespace and
  three backquotes. The search takes the leftmost start position that matches.
\<close>

definition fence :: string where
  "fence = [CHR 0x60, CHR 0x60, CHR 0x60]"

fun find_close :: "char \<Rightarrow> string \<Rightarrow> string \<Rightarrow> string option" where
  "find_close cl acc [] = None"
| "find_close cl acc (c # cs) =
     (if c = cl \<and> startswith (dropWhile py_isspace cs) fence then Some (rev (c # acc))
      else find_close cl (c # acc) cs)"

definition fenced_at :: "string \<Rightarrow> string option" where
  "fenced_at s =
     (if startswith s fence
      then (let r1 = drop 3 s;
                r2 = (if startswith r1 ''json'' then drop 4 r1 else r1)
            in case dropWhile py_isspace r2 of
                 [] \<Rightarrow> None
               | c # cs \<Rightarrow>
                   if c = CHR ''['' then find_close (CHR '']'') [c] cs
                   else if c = CHR ''{'' then find_close (CHR ''}'') [c] cs
                   else None)
      else None)"

fun fenced_search :: "string \<Rightarrow> string option" where
  "fenced_search [] = None"
| "fenced_search (c # cs) =
     (case fenced_at (c # cs) of Some g \<Rightarrow> Some g | None \<Rightarrow> fenced_search cs)"

text \<open>
  \<open>re.search(r'(\[[\s\S]*\])', text)\<close> and \<open>re.search(r'(\{[\s\S]*\})', text)\<close>, group 1:
  the star is greedy, so the match runs from the first opening character to the last
  closing character behind it, and there is no match when none is behind it.
\<close>

definition greedy_span :: "char \<Rightarrow> char \<Rightarrow> string \<Rightarrow> string option" where
  "greedy_span op cl text =
     (case dropWhile (\<lambda>c. c \<noteq> op) text of
        [] \<Rightarrow> None
      | c # body \<Rightarrow>
          if cl \<in> set body then Some (c # rev (dropWhile (\<lambda>d. d \<noteq> cl) (rev body)))
          else None)"

text \<open>
  The counting loop of both fallbacks; the result is \<open>end_pos\<close>, 0 when the loop ends
  without a \<open>break\<close>.
  \<^verbatim>\<open>
  bracket_count = 0
  end_pos = 0
  for i, char in enumerate(json_str):
      if char == '[':
          bracket_count += 1
      elif char == ']':
          bracket_count -= 1
          if bracket_count == 0:
              end_pos = i + 1
              break
  \<close>
\<close>

fun bracket_end :: "char \<Rightarrow> char \<Rightarrow> int \<Rightarrow> nat \<Rightarrow> string \<Rightarrow> nat" where
  "bracket_end op cl bracket_count i [] = 0"
| "bracket_end op cl bracket_count i (c # cs) =
     (if c = op then bracket_end op cl (bracket_count + 1) (i + 1) cs
      else if c = cl
      then (if bracket_count - 1 = 0 then i + 1
            else bracket_end op cl (bracket_count - 1) (i + 1) cs)
      else bracket_end op cl bracket_count (i + 1) cs)"

text \<open>
  The string that a fallback hands to \<open>json.loads\<close>, given the match of its regex:
  stripped, cleaned, and then cut behind the closing character at which the count
  returns to 0, if there is one.
\<close>

definition fallback_candidate :: "char \<Rightarrow> char \<Rightarrow> string \<Rightarrow> string" where
  "fallback_candidate op cl group1 =
     (let json_str = clean_json (py_strip group1);
          end_pos = bracket_end op cl 0 0 json_str
      in if end_pos > 0 then take end_pos json_str else json_str)"

subsection \<open>\<open>extract_json\<close>\<close>

text \<open>
  \<open>json.loads\<close> belongs to the standard library and is the parameter \<open>loads\<close>; \<open>Inl\<close> is
  the exception it raises. Python's \<open>None\<close> is \<open>JNull\<close>. Each fallback has the shape
  \<^verbatim>\<open>
  match = re.search(...)
  if match:
      try:
          ...
          return json.loads(json_str)
      except Exception as e:
          print(...)
          pass
  \<close>
  which is \<open>guarded\<close>: without a match, and when the body raises, the code behind it
  (\<open>rest\<close>) runs.
\<close>

definition guarded :: "string option \<Rightarrow> (string \<Rightarrow> exn + json) \<Rightarrow> (exn + json) \<Rightarrow> exn + json" where
  "guarded m body rest =
     (case m of
        None \<Rightarrow> rest
      | Some g \<Rightarrow> (case body g of Inr v \<Rightarrow> Inr v | Inl e \<Rightarrow> rest))"

definition extract_json :: "(string \<Rightarrow> exn + json) \<Rightarrow> string \<Rightarrow> exn + json" where
  "extract_json loads text0 =
     (if text0 = [] \<or> startswith text0 ''Error:'' then Inr JNull
      else
        let text = py_strip text0 in
        case loads text of
          Inr v \<Rightarrow> Inr v
        | Inl e \<Rightarrow>
            guarded (fenced_search text) (\<lambda>g. loads (clean_json (py_strip g)))
             (guarded (greedy_span (CHR ''['') (CHR '']'') text)
                (\<lambda>g. loads (fallback_candidate (CHR ''['') (CHR '']'') g))
               (guarded (greedy_span (CHR ''{'') (CHR ''}'') text)
                  (\<lambda>g. loads (fallback_candidate (CHR ''{'') (CHR ''}'') g))
                 (Inr JNull))))"

section \<open>Python operations on JSON values\<close>

text \<open>Sequencing of steps that may raise: the first exception ends the computation.\<close>

definition seq :: "exn + 'a \<Rightarrow> ('a \<Rightarrow> exn + 'b) \<Rightarrow> exn + 'b" where
  "seq m f = (case m of Inl e \<Rightarrow> Inl e | Inr x \<Rightarrow> f x)"

text \<open>Truth value of an object in a condition.\<close>

fun truthy :: "json \<Rightarrow> bool" where
  "truthy JNull = False"
| "truthy (JBool b) = b"
| "truthy (JInt i) = (i \<noteq> 0)"
| "truthy (JFloat r) = (r \<noteq> 0)"
| "truthy (JStr s) = (s \<noteq> [])"
| "truthy (JArr xs) = (xs \<noteq> [])"
| "truthy (JObj d) = (d \<noteq> [])"

text \<open>\<open>d.get(k, default)\<close> on a dict, and on an arbitrary value, where only a dict has \<open>get\<close>.\<close>

definition dict_get :: "pydict \<Rightarrow> string \<Rightarrow> json \<Rightarrow> json" where
  "dict_get d k dflt = (case map_of d k of None \<Rightarrow> dflt | Some v \<Rightarrow> v)"

definition attr_get :: "json \<Rightarrow> string \<Rightarrow> json \<Rightarrow> exn + json" where
  "attr_get x k dflt = (case x of JObj d \<Rightarrow> Inr (dict_get d k dflt) | _ \<Rightarrow> Inl AttributeError)"

text \<open>\<open>d[k] = v\<close>.\<close>

definition dict_set :: "string \<Rightarrow> json \<Rightarrow> pydict \<Rightarrow> pydict" where
  "dict_set k v d = AList.update k v d"

text \<open>The numbers: \<open>int\<close>, \<open>float\<close> and \<open>bool\<close> (\<open>True\<close> is 1, \<open>False\<close> is 0).\<close>

fun num_of :: "json \<Rightarrow> rat option" where
  "num_of (JBool b) = Some (if b then 1 else 0)"
| "num_of (JInt i) = Some (of_int i)"
| "num_of (JFloat r) = Some r"
| "num_of _ = None"

text \<open>\<open>v >= n\<close> for an integer literal \<open>n\<close>: a \<open>TypeError\<close> unless \<open>v\<close> is a number.\<close>

definition py_ge_int :: "json \<Rightarrow> int \<Rightarrow> exn + bool" where
  "py_ge_int v n = (case num_of v of None \<Rightarrow> Inl TypeError | Some r \<Rightarrow> Inr (r \<ge> of_int n))"

text \<open>\<open>a == b\<close>.\<close>

fun py_eq :: "json \<Rightarrow> json \<Rightarrow> bool" where
  "py_eq JNull JNull = True"
| "py_eq (JStr s) (JStr t) = (s = t)"
| "py_eq (JArr xs) (JArr ys) = list_all2 py_eq xs ys"
| "py_eq (JObj d) (JObj e) =
     (length d = length e \<and>
      list_all (\<lambda>kv. case map_of e (fst kv) of None \<Rightarrow> False | Some w \<Rightarrow> py_eq (snd kv) w) d)"
| "py_eq a b = (case (num_of a, num_of b) of (Some x, Some y) \<Rightarrow> x = y | _ \<Rightarrow> False)"

text \<open>
  \<open>a > b\<close>: numbers by value, strings by code points, lists by their first differing
  items; every other pairing is a \<open>TypeError\<close>.
\<close>

fun str_gt :: "string \<Rightarrow> string \<Rightarrow> bool" where
  "str_gt [] t = False"
| "str_gt (c # cs) [] = True"
| "str_gt (c # cs) (d # ds) =
     (if c = d then str_gt cs ds else (of_char c :: nat) > of_char d)"

fun py_gt :: "json \<Rightarrow> json \<Rightarrow> exn + bool"
  and list_gt :: "json list \<Rightarrow> json list \<Rightarrow> exn + bool" where
  "py_gt (JStr s) (JStr t) = Inr (str_gt s t)"
| "py_gt (JArr xs) (JArr ys) = list_gt xs ys"
| "py_gt a b = (case (num_of a, num_of b) of (Some x, Some y) \<Rightarrow> Inr (x > y) | _ \<Rightarrow> Inl TypeError)"
| "list_gt [] ys = Inr False"
| "list_gt (x # xs) [] = Inr True"
| "list_gt (x # xs) (y # ys) = (if py_eq x y then list_gt xs ys else py_gt x y)"

text \<open>
  \<open>str(v)\<close>, as an f-string applies it. For a \<open>str\<close> it is the string itself; for any
  other value it is the builtin's text, the parameter \<open>repr\<close>.
\<close>

definition py_str :: "(json \<Rightarrow> string) \<Rightarrow> json \<Rightarrow> string" where
  "py_str repr v = (case v of JStr s \<Rightarrow> s | _ \<Rightarrow> repr v)"

text \<open>\<open>v.strip()\<close> on an arbitrary value: only a \<open>str\<close> has the method.\<close>

definition strip_of :: "json \<Rightarrow> exn + string" where
  "strip_of v = (case v of JStr s \<Rightarrow> Inr (py_strip s) | _ \<Rightarrow> Inl AttributeError)"

text \<open>\<open>sep.join(xs)\<close> on a list of values: a \<open>TypeError\<close> unless every item is a \<open>str\<close>.\<close>

fun str_items :: "json list \<Rightarrow> string list option" where
  "str_items [] = Some []"
| "str_items (JStr s # xs) = map_option (\<lambda>ss. s # ss) (str_items xs)"
| "str_items (x # xs) = None"

definition join_values :: "string \<Rightarrow> json list \<Rightarrow> exn + string" where
  "join_values sep xs = (case str_items xs of None \<Rightarrow> Inl TypeError | Some ss \<Rightarrow> Inr (py_join sep ss))"

text \<open>\<open>"literal" + v\<close>: a \<open>TypeError\<close> unless \<open>v\<close> is a \<open>str\<close>.\<close>

definition str_concat :: "string \<Rightarrow> json \<Rightarrow> exn + string" where
  "str_concat s v = (case v of JStr t \<Rightarrow> Inr (s @ t) | _ \<Rightarrow> Inl TypeError)"

section \<open>Validator\<close>

text \<open>
  What the validator takes from outside: the text Python prints for a value that is not
  a \<open>str\<close>, the paper search (\<open>search_arxiv(query, max_results=3)\<close>, or a stub in its
  place: \<open>Inl\<close> when the call raises), the language model and \<open>json.loads\<close>. The search
  and the model get the number \<open>i\<close> of the insight they are called for, since neither has
  to answer the same question twice in the same way.
\<close>

text \<open>
  The holes of the validation prompt, in the order of the f-string; the fixed text
  between them is the same in every call and is left out.
\<close>

record prompt =
  field_section :: string
  title_line :: string
  observation_line :: string
  hypothesis_line :: string
  expected_insight_line :: string
  experiment_design_text :: string
  challenge_section :: string

record env =
  env_repr :: "json \<Rightarrow> string"
  env_search :: "nat \<Rightarrow> string \<Rightarrow> exn + paper list"
  env_llm :: "nat \<Rightarrow> prompt \<Rightarrow> string"
  env_loads :: "string \<Rightarrow> exn + json"

subsection \<open>\<open>_format_experiment_design\<close>\<close>

text \<open>
  One optional line of the form \<open>Label: {value}\<close>, present when the value is truthy.
\<close>

definition opt_line :: "(json \<Rightarrow> string) \<Rightarrow> string \<Rightarrow> json \<Rightarrow> string list" where
  "opt_line repr label v = (if truthy v then [label @ py_str repr v] else [])"

text \<open>
  \<^verbatim>\<open>
  if exp_design.get(key):
      xs = exp_design.get(key, [])
      if isinstance(xs, list):
          lines.append(f"Label: {', '.join(xs)}")
      else:
          lines.append(f"Label: {xs}")
  \<close>
\<close>

definition list_line :: "(json \<Rightarrow> string) \<Rightarrow> string \<Rightarrow> json \<Rightarrow> exn + string list" where
  "list_line repr label v =
     (if truthy v
      then (case v of
              JArr xs \<Rightarrow> seq (join_values '', '' xs) (\<lambda>s. Inr [label @ s])
            | _ \<Rightarrow> Inr [label @ py_str repr v])
      else Inr [])"

definition procedure_lines :: "(json \<Rightarrow> string) \<Rightarrow> json \<Rightarrow> string list" where
  "procedure_lines repr v =
     (if truthy v
      then (case v of
              JObj proc \<Rightarrow>
                ''Experimental Procedure:''
                  # map (\<lambda>kv. ''  '' @ fst kv @ '': '' @ py_str repr (snd kv)) proc
            | _ \<Rightarrow> [''Experimental Procedure: '' @ py_str repr v])
      else [])"

definition week_lines :: "pydict \<Rightarrow> exn + string list" where
  "week_lines d =
     seq (str_concat ''Week 1: '' (dict_get d ''week1'' (JStr ''N/A''))) (\<lambda>w1.
     seq (str_concat ''Week 2: '' (dict_get d ''week2'' (JStr ''N/A''))) (\<lambda>w2.
     seq (str_concat ''Week 3: '' (dict_get d ''week3'' (JStr ''N/A''))) (\<lambda>w3.
     Inr [w1, w2, w3])))"

definition format_experiment_design :: "(json \<Rightarrow> string) \<Rightarrow> json \<Rightarrow> exn + string" where
  "format_experiment_design repr exp_design =
     (if \<not> truthy exp_design then Inr ''No experiment design provided.''
      else
        case exp_design of
          JObj d \<Rightarrow>
            (let g = (\<lambda>k. dict_get d k JNull);
                 l1 = opt_line repr ''Objective: '' (g ''objective'');
                 l2 = opt_line repr ''Independent Variable: '' (g ''independent_variable'')
             in seq (list_line repr ''Dependent Variables: '' (g ''dependent_variables'')) (\<lambda>l3.
                let l4 = opt_line repr ''Control Group: '' (g ''control_group'');
                    l5 = procedure_lines repr (g ''experimental_procedure'');
                    l6 = opt_line repr ''Expected Outcome: '' (g ''expected_outcome'');
                    l7 = opt_line repr ''Fallback Plan: '' (g ''fallback_plan'')
                in seq (list_line repr ''Deliverables: '' (g ''deliverables'')) (\<lambda>l8.
                   let lines = l1 @ l2 @ l3 @ l4 @ l5 @ l6 @ l7 @ l8;
                       weeks = (truthy (g ''week1'') \<or> truthy (g ''week2'') \<or> truthy (g ''week3''))
                   in seq (if lines = [] \<and> weeks then week_lines d
                           else if weeks
                           then seq (week_lines d)
                                  (\<lambda>ws. Inr (lines @ [CHR 0x0A # ''Legacy Timeline:''] @ ws))
                           else Inr lines) (\<lambda>lines'.
                      Inr (if lines' \<noteq> [] then py_join [CHR 0x0A] lines'
                           else ''Experiment design structure not available.'')))))
        | _ \<Rightarrow> Inl AttributeError)"

subsection \<open>The verdict on one insight\<close>

text \<open>The three outcomes of one pass of the loop that do not raise.\<close>

datatype verdict = Skipped | Survived pydict | Rejected

text \<open>
  \<^verbatim>\<open>
  insight['validated'] = True
  insight['survival_score'] = 8.5
  insight['validation_evidence'] = "No contradicting prior work found in recent literature. Gap appears valid."
  \<close>
\<close>

definition default_survive :: "pydict \<Rightarrow> pydict" where
  "default_survive insight =
     dict_set ''validation_evidence''
       (JStr ''No contradicting prior work found in recent literature. Gap appears valid.'')
       (dict_set ''survival_score'' (JFloat 8.5)
         (dict_set ''validated'' (JBool True) insight))"

definition inconclusive :: "pydict \<Rightarrow> pydict" where
  "inconclusive insight =
     dict_set ''validation_evidence''
       (JStr ''Validation inconclusive - insight retained with caution.'')
       (dict_set ''survival_score'' (JFloat 7)
         (dict_set ''validated'' (JBool True) insight))"

text \<open>
  \<^verbatim>\<open>
  if isinstance(validation, list):
      if validation and len(validation) > 0 and isinstance(validation[0], dict):
          validation = validation[0]
      else:
          validation = None
  elif not isinstance(validation, dict):
      validation = None
  \<close>
\<close>

definition normalize_validation :: "json \<Rightarrow> pydict option" where
  "normalize_validation v =
     (case v of
        JArr xs \<Rightarrow> (case xs of JObj d # _ \<Rightarrow> Some d | _ \<Rightarrow> None)
      | JObj d \<Rightarrow> Some d
      | _ \<Rightarrow> None)"

definition query_of :: "(json \<Rightarrow> string) \<Rightarrow> pydict \<Rightarrow> string \<Rightarrow> string" where
  "query_of repr insight original_topic =
     extract_search_keywords (py_str repr (dict_get insight ''gap'' (JStr [])))
       (py_str repr (dict_get insight ''title'' (JStr []))) original_topic"

definition challenge_text_of :: "(json \<Rightarrow> string) \<Rightarrow> paper list \<Rightarrow> string" where
  "challenge_text_of repr challenge_papers =
     py_join [CHR 0x0A]
       (map (\<lambda>p. ''- '' @ title p @ '' ('' @ repr (JInt (year p)) @ ''): ''
                   @ take 200 (abstract p) @ ''...'')
          (take 3 challenge_papers))"

text \<open>
  The branch of an insight that survives the judgement.
  \<^verbatim>\<open>
  insight['validated'] = True
  insight['survival_score'] = survival_score
  insight['validation_evidence'] = validation_evidence
  insight['validation_dialogue'] = dialogue_message
  if validation.get('related_work'):
      insight['related_work'] = validation.get('related_work', [])
  if validation.get('validation_comment'):
      insight['validation_comment'] = validation.get('validation_comment', '')
  exp_eval = validation.get('experiment_design_evaluation', {})
  if exp_eval:
      insight['experiment_design_quality'] = exp_eval.get('overall_quality', 0)
      insight['experiment_design_feedback'] = exp_eval.get('feedback', '')
      insight['experiment_design_scores'] = {
          'completeness': exp_eval.get('completeness', 0),
          'reproducibility': exp_eval.get('reproducibility', 0),
          'informativeness': exp_eval.get('informativeness', 0),
          'branch_logic': exp_eval.get('branch_logic', 0)}
  refinement = validation.get('refinement', '')
  if refinement and refinement.strip():
      if observation and refinement.strip() != observation.strip():
          insight['observation'] = refinement
      if not observation or refinement.strip() != gap_text.strip():
          insight['gap'] = refinement
  validated_insights.append(insight)
  \<close>
  \<open>observation\<close> and \<open>gap_text\<close> were read from the insight before the prompt was built.
\<close>

definition set_scores :: "pydict \<Rightarrow> json \<Rightarrow> json \<Rightarrow> pydict \<Rightarrow> pydict" where
  "set_scores validation survival_score validation_evidence insight =
     (let i1 = dict_set ''validated'' (JBool True) insight;
          i2 = dict_set ''survival_score'' survival_score i1;
          i3 = dict_set ''validation_evidence'' validation_evidence i2;
          i4 = dict_set ''validation_dialogue'' validation_evidence i3;
          i5 = (if truthy (dict_get validation ''related_work'' JNull)
                then dict_set ''related_work'' (dict_get validation ''related_work'' (JArr [])) i4
                else i4)
      in if truthy (dict_get validation ''validation_comment'' JNull)
         then dict_set ''validation_comment''
                (dict_get validation ''validation_comment'' (JStr [])) i5
         else i5)"

definition set_experiment_evaluation :: "pydict \<Rightarrow> pydict \<Rightarrow> exn + pydict" where
  "set_experiment_evaluation validation insight =
     (let exp_eval = dict_get validation ''experiment_design_evaluation'' (JObj [])
      in if truthy exp_eval
         then (case exp_eval of
                 JObj ev \<Rightarrow>
                   Inr (dict_set ''experiment_design_scores''
                          (JObj [(''completeness'', dict_get ev ''completeness'' (JInt 0)),
                                 (''reproducibility'', dict_get ev ''reproducibility'' (JInt 0)),
                                 (''informativeness'', dict_get ev ''informativeness'' (JInt 0)),
                                 (''branch_logic'', dict_get ev ''branch_logic'' (JInt 0))])
                          (dict_set ''experiment_design_feedback''
                             (dict_get ev ''feedback'' (JStr []))
                             (dict_set ''experiment_design_quality''
                                (dict_get ev ''overall_quality'' (JInt 0)) insight)))
               | _ \<Rightarrow> Inl AttributeError)
         else Inr insight)"

definition apply_refinement :: "pydict \<Rightarrow> json \<Rightarrow> json \<Rightarrow> pydict \<Rightarrow> exn + pydict" where
  "apply_refinement validation observation gap_text insight =
     (let refinement = dict_get validation ''refinement'' (JStr [])
      in if truthy refinement
         then seq (strip_of refinement) (\<lambda>rs.
              if rs \<noteq> []
              then seq (if truthy observation
                        then seq (strip_of observation) (\<lambda>os. Inr (rs \<noteq> os))
                        else Inr False) (\<lambda>c1.
                   let i1 = (if c1 then dict_set ''observation'' refinement insight else insight)
                   in seq (if \<not> truthy observation then Inr True
                           else seq (strip_of gap_text) (\<lambda>gs. Inr (rs \<noteq> gs))) (\<lambda>c2.
                      Inr (if c2 then dict_set ''gap'' refinement i1 else i1)))
              else Inr insight)
         else Inr insight)"

text \<open>
  The decision on a judgement that was extracted as a non-empty dict.
  \<^verbatim>\<open>
  survival_score = validation.get('survival_score', 5)
  gap_valid = validation.get('gap_still_valid', survival_score >= 6)
  validation_evidence = validation.get('evidence', 'Gap validated against recent literature.')
  if gap_valid and survival_score >= 6:
      ...
  else:
      validation_stats["rejected"] += 1
  \<close>
  The default of the second \<open>get\<close> is an argument, so the comparison is made, and may
  raise, whether or not the key is there.
\<close>

definition apply_judgement :: "pydict \<Rightarrow> pydict \<Rightarrow> exn + verdict" where
  "apply_judgement insight validation =
     (let survival_score = dict_get validation ''survival_score'' (JInt 5)
      in seq (py_ge_int survival_score 6) (\<lambda>ge6.
         let gap_valid = dict_get validation ''gap_still_valid'' (JBool ge6);
             validation_evidence =
               dict_get validation ''evidence'' (JStr ''Gap validated against recent literature.'')
         in if truthy gap_valid \<and> ge6
            then seq (set_experiment_evaluation validation
                        (set_scores validation survival_score validation_evidence insight)) (\<lambda>i1.
                 seq (apply_refinement validation
                        (dict_get insight ''observation'' (JStr []))
                        (dict_get insight ''gap'' (JStr [])) i1) (\<lambda>i2.
                 Inr (Survived i2)))
            else Inr Rejected))"

text \<open>
  The prompt for an insight, its challenge papers and its formatted experiment design.
  \<^verbatim>\<open>
  Title: {title_text}
  Observation: {observation if observation else gap_text}
  Hypothesis: {hypothesis if hypothesis else 'N/A'}
  Expected Insight: {expected_insight if expected_insight else 'N/A'}
  ...
  {challenge_text if challenge_text else 'No specific contradicting papers found in search.'}
  \<close>
\<close>

definition build_prompt ::
  "(json \<Rightarrow> string) \<Rightarrow> pydict \<Rightarrow> string \<Rightarrow> paper list \<Rightarrow> string \<Rightarrow> prompt" where
  "build_prompt repr insight field_context challenge_papers exp_text =
     (let gap_text = dict_get insight ''gap'' (JStr []);
          title_text = dict_get insight ''title'' (JStr []);
          challenge_text = challenge_text_of repr challenge_papers;
          observation = dict_get insight ''observation'' (JStr []);
          hypothesis = dict_get insight ''hypothesis'' (JStr []);
          expected_insight = dict_get insight ''expected_insight'' (JStr [])
      in \<lparr>field_section = field_context,
          title_line = py_str repr title_text,
          observation_line = py_str repr (if truthy observation then observation else gap_text),
          hypothesis_line = (if truthy hypothesis then py_str repr hypothesis else ''N/A''),
          expected_insight_line =
            (if truthy expected_insight then py_str repr expected_insight else ''N/A''),
          experiment_design_text = exp_text,
          challenge_section =
            (if challenge_text \<noteq> [] then challenge_text
             else ''No specific contradicting papers found in search.'')\<rparr>)"

text \<open>
  One pass of the loop of \<open>validate\<close>, for the \<open>i\<close>-th item \<open>x\<close> of the list. The first
  component lists the calls of the language model made in the pass, the second is the
  exception that leaves \<open>validate\<close> or the verdict. The counters of \<open>validation_stats\<close> are
  only printed and are left out.
\<close>

definition validate_one ::
  "env \<Rightarrow> string \<Rightarrow> string \<Rightarrow> nat \<Rightarrow> json \<Rightarrow> (nat \<times> prompt) list \<times> (exn + verdict)" where
  "validate_one env original_topic field_context i x =
     (case x of
        JObj insight \<Rightarrow>
          (let search_query = query_of (env_repr env) insight original_topic;
               challenge_papers =
                 (case env_search env i search_query of Inl e \<Rightarrow> [] | Inr ps \<Rightarrow> ps)
           in if challenge_papers = [] then ([], Inr (Survived (default_survive insight)))
              else
                case format_experiment_design (env_repr env)
                       (dict_get insight ''experiment_design'' (JObj [])) of
                  Inl e \<Rightarrow> ([], Inl e)
                | Inr exp_text \<Rightarrow>
                    (let p = build_prompt (env_repr env) insight field_context
                               challenge_papers exp_text;
                         response = env_llm env i p
                     in ([(i, p)],
                         seq (extract_json (env_loads env) response) (\<lambda>validation.
                         case normalize_validation validation of
                           None \<Rightarrow> Inr (Survived (inconclusive insight))
                         | Some v \<Rightarrow>
                             if v = [] then Inr (Survived (inconclusive insight))
                             else apply_judgement insight v))))
      | _ \<Rightarrow> ([], Inr Skipped))"

subsection \<open>\<open>validate\<close>\<close>

fun validate_loop ::
  "env \<Rightarrow> string \<Rightarrow> string \<Rightarrow> nat \<Rightarrow> json list
     \<Rightarrow> (nat \<times> prompt) list \<times> (exn + pydict list)" where
  "validate_loop env original_topic field_context i [] = ([], Inr [])"
| "validate_loop env original_topic field_context i (x # xs) =
     (case validate_one env original_topic field_context i x of
        (calls, Inl e) \<Rightarrow> (calls, Inl e)
      | (calls, Inr v) \<Rightarrow>
          (case validate_loop env original_topic field_context (i + 1) xs of
             (calls', Inl e) \<Rightarrow> (calls @ calls', Inl e)
           | (calls', Inr vs) \<Rightarrow>
               (calls @ calls', Inr (case v of Survived d \<Rightarrow> d # vs | _ \<Rightarrow> vs))))"

text \<open>
  \<open>max(insights, key=lambda x: x.get('novelty_score', 0))\<close>: the first item whose key is
  not exceeded by a later one; \<open>best\<close> and \<open>best_key\<close> are the item and the key kept so
  far.
\<close>

definition novelty_key :: "json \<Rightarrow> exn + json" where
  "novelty_key x = attr_get x ''novelty_score'' (JInt 0)"

fun max_loop :: "json \<Rightarrow> json \<Rightarrow> json list \<Rightarrow> exn + json" where
  "max_loop best best_key [] = Inr best"
| "max_loop best best_key (x # xs) =
     seq (novelty_key x) (\<lambda>k.
     seq (py_gt k best_key) (\<lambda>b.
     if b then max_loop x k xs else max_loop best best_key xs))"

definition max_novelty :: "json list \<Rightarrow> exn + json" where
  "max_novelty insights =
     (case insights of
        [] \<Rightarrow> Inl ValueError
      | x # xs \<Rightarrow> seq (novelty_key x) (\<lambda>k. max_loop x k xs))"

text \<open>
  \<^verbatim>\<open>
  best_insight['validated'] = False
  best_insight['survival_score'] = 5.0
  best_insight['validation_evidence'] = "All insights were challenged, but this had the highest novelty score."
  \<close>
\<close>

definition resurrect :: "pydict \<Rightarrow> pydict" where
  "resurrect best_insight =
     dict_set ''validation_evidence''
       (JStr ''All insights were challenged, but this had the highest novelty score.'')
       (dict_set ''survival_score'' (JFloat 5)
         (dict_set ''validated'' (JBool False) best_insight))"

text \<open>
  \<open>validate\<close>. The insights of the list are taken to be distinct objects, as the ones
  the synthesizer builds are, so that changing one in place changes no other.
  \<^verbatim>\<open>
  if len(validated_insights) == 0 and len(insights) > 0:
      best_insight = max(insights, key=lambda x: x.get('novelty_score', 0))
      ...
      validated_insights = [best_insight]
  return validated_insights
  \<close>
\<close>

definition validate ::
  "env \<Rightarrow> json list \<Rightarrow> string \<Rightarrow> string \<Rightarrow> (nat \<times> prompt) list \<times> (exn + pydict list)" where
  "validate env insights original_topic field_context =
     (case validate_loop env original_topic field_context 1 insights of
        (calls, Inl e) \<Rightarrow> (calls, Inl e)
      | (calls, Inr validated_insights) \<Rightarrow>
          if validated_insights = [] \<and> insights \<noteq> []
          then (calls,
                seq (max_novelty insights) (\<lambda>best.
                case best of
                  JObj best_insight \<Rightarrow> Inr [resurrect best_insight]
                | _ \<Rightarrow> Inl TypeError))
          else (calls, Inr validated_insights))"

text \<open>The novelty score of an insight as a number, when it has one (0 when the key is absent).\<close>

definition novelty :: "json \<Rightarrow> rat option" where
  "novelty x = (case x of JObj d \<Rightarrow> num_of (dict_get d ''novelty_score'' (JInt 0)) | _ \<Rightarrow> None)"

section \<open>Structured extraction as the specification words it\<close>

text \<open>
  ``In order, first match wins'': the strings handed to \<open>json.loads\<close>, in the order of the
  attempts, and the first of them that parses.
\<close>

definition parse_attempts :: "string \<Rightarrow> string list" where
  "parse_attempts text0 =
     (let text = py_strip text0
      in [text]
         @ (case fenced_search text of None \<Rightarrow> [] | Some g \<Rightarrow> [clean_json (py_strip g)])
         @ (case greedy_span (CHR ''['') (CHR '']'') text of
              None \<Rightarrow> []
            | Some g \<Rightarrow> [fallback_candidate (CHR ''['') (CHR '']'') g])
         @ (case greedy_span (CHR ''{'') (CHR ''}'') text of
              None \<Rightarrow> []
            | Some g \<Rightarrow> [fallback_candidate (CHR ''{'') (CHR ''}'') g]))"

fun first_success :: "(string \<Rightarrow> exn + json) \<Rightarrow> string list \<Rightarrow> json" where
  "first_success loads [] = JNull"
| "first_success loads (s # ss) =
     (case loads s of Inr v \<Rightarrow> v | Inl e \<Rightarrow> first_success loads ss)"



section \<open>Synthesizer: from the extracted value to the insights\<close>

text \<open>
  The part of \<open>synthesize\<close> behind \<open>result = self.llm.extract_json(response)\<close>: the
  value \<open>result\<close>, the papers and the analyzer's gap list (\<open>gaps\<close>, whatever the language
  model put there) decide the insights.
\<close>


























section \<open>Pipeline orchestrator\<close>

text \<open>
  One entry of the conversation log. The fields that the orchestrator sets to fixed
  values are spelled out; the rest of the dict (dialogue message, duration, summary,
  thinking, key findings and the stage's own data) is the \<open>payload\<close>.
\<close>

record 'p log_entry =
  turn :: nat
  agent :: string
  responding_to :: "string list"
  message_type :: string
  payload :: 'p

text \<open>
  The four agents and the code that computes the payload of each entry are parameters;
  each of them may raise. \<open>'a\<close> is the analyzer's result, \<open>'k\<close> the skeptic's. The
  research intelligence is optional (\<open>self.research_intelligence\<close> may be \<open>None\<close>) and
  stands for the whole \<open>try\<close> block that computes the field context.
\<close>

record ('a, 'k, 'p) pipeline =
  intelligence :: "(paper list \<Rightarrow> string \<Rightarrow> exn + string) option"
  analyze_papers :: "paper list \<Rightarrow> string \<Rightarrow> string \<Rightarrow> exn + 'a"
  critique :: "paper list \<Rightarrow> 'a \<Rightarrow> string \<Rightarrow> string \<Rightarrow> exn + 'k"
  synthesize :: "paper list \<Rightarrow> 'a \<Rightarrow> 'k \<Rightarrow> string \<Rightarrow> string \<Rightarrow> exn + json list"
  run_validate :: "pydict list \<Rightarrow> string \<Rightarrow> string \<Rightarrow> exn + pydict list"
  analyzer_payload :: "'a \<Rightarrow> paper list \<Rightarrow> exn + 'p"
  skeptic_payload :: "'k \<Rightarrow> 'a \<Rightarrow> exn + 'p"
  synthesizer_payload :: "pydict list \<Rightarrow> exn + 'p"
  validator_payload :: "pydict list \<Rightarrow> pydict list \<Rightarrow> exn + 'p"

text \<open>The part of the \<open>ResearchAgent\<close> object that \<open>generate_insights\<close> reads and writes.\<close>

record 'p agent_state =
  conversation_log :: "'p log_entry list"
  field_context :: string

text \<open>\<open>self.conversation_log.append({...})\<close>.\<close>

definition log_append ::
  "nat \<Rightarrow> string \<Rightarrow> string list \<Rightarrow> string \<Rightarrow> 'p \<Rightarrow> 'p agent_state \<Rightarrow> 'p agent_state" where
  "log_append t a r m p s =
     s\<lparr>conversation_log := conversation_log s
          @ [\<lparr>turn = t, agent = a, responding_to = r, message_type = m, payload = p\<rparr>]\<rparr>"

text \<open>\<open>[i for i in insights if isinstance(i, dict)]\<close>.\<close>

fun only_dicts :: "json list \<Rightarrow> pydict list" where
  "only_dicts [] = []"
| "only_dicts (JObj d # xs) = d # only_dicts xs"
| "only_dicts (x # xs) = only_dicts xs"

text \<open>
  The four stages. Each returns the state it leaves behind and either the exception
  that ends \<open>generate_insights\<close> or its output: the entry is appended only when the agent
  and the computation of the payload have both returned.
\<close>

definition analyzer_stage ::
  "('a, 'k, 'p) pipeline \<Rightarrow> paper list \<Rightarrow> paper list \<Rightarrow> string \<Rightarrow> 'p agent_state
     \<Rightarrow> 'p agent_state \<times> (exn + 'a)" where
  "analyzer_stage P papers papers_for_agents topic s =
     (case analyze_papers P papers_for_agents topic (field_context s) of
        Inl e \<Rightarrow> (s, Inl e)
      | Inr analyzer_result \<Rightarrow>
          (case analyzer_payload P analyzer_result papers of
             Inl e \<Rightarrow> (s, Inl e)
           | Inr p \<Rightarrow> (log_append 1 ''Analyzer'' [] ''observation'' p s, Inr analyzer_result)))"

definition skeptic_stage ::
  "('a, 'k, 'p) pipeline \<Rightarrow> paper list \<Rightarrow> 'a \<Rightarrow> string \<Rightarrow> 'p agent_state
     \<Rightarrow> 'p agent_state \<times> (exn + 'k)" where
  "skeptic_stage P papers_for_agents analyzer_result topic s =
     (case critique P papers_for_agents analyzer_result topic (field_context s) of
        Inl e \<Rightarrow> (s, Inl e)
      | Inr skeptic_result \<Rightarrow>
          (case skeptic_payload P skeptic_result analyzer_result of
             Inl e \<Rightarrow> (s, Inl e)
           | Inr p \<Rightarrow>
               (log_append 2 ''Skeptic'' [''Analyzer''] ''challenge'' p s, Inr skeptic_result)))"

definition synthesizer_stage ::
  "('a, 'k, 'p) pipeline \<Rightarrow> paper list \<Rightarrow> 'a \<Rightarrow> 'k \<Rightarrow> string \<Rightarrow> 'p agent_state
     \<Rightarrow> 'p agent_state \<times> (exn + pydict list)" where
  "synthesizer_stage P papers_for_agents analyzer_result skeptic_result topic s =
     (case synthesize P papers_for_agents analyzer_result skeptic_result topic (field_context s) of
        Inl e \<Rightarrow> (s, Inl e)
      | Inr insights \<Rightarrow>
          (let validated_insights_for_stats = only_dicts insights
           in case synthesizer_payload P validated_insights_for_stats of
                Inl e \<Rightarrow> (s, Inl e)
              | Inr p \<Rightarrow>
                  (log_append 3 ''Synthesizer'' [''Analyzer'', ''Skeptic''] ''synthesis'' p s,
                   Inr validated_insights_for_stats)))"

definition validator_stage ::
  "('a, 'k, 'p) pipeline \<Rightarrow> pydict list \<Rightarrow> string \<Rightarrow> 'p agent_state
     \<Rightarrow> 'p agent_state \<times> (exn + pydict list)" where
  "validator_stage P validated_insights_for_stats topic s =
     (case run_validate P validated_insights_for_stats
             (if topic \<noteq> [] then topic else ''research'') (field_context s) of
        Inl e \<Rightarrow> (s, Inl e)
      | Inr validated_insights \<Rightarrow>
          (case validator_payload P validated_insights_for_stats validated_insights of
             Inl e \<Rightarrow> (s, Inl e)
           | Inr p \<Rightarrow>
               (log_append 4 ''Validator'' [''Synthesizer''] ''validation'' p s,
                Inr validated_insights)))"

text \<open>
  \<open>generate_insights\<close>.
  \<^verbatim>\<open>
  self.conversation_log = []
  papers_for_agents = papers[:5] if len(papers) > 5 else papers
  ...
  if self.research_intelligence and topic:
      try:
          self.field_context = self.research_intelligence.generate_field_context(topic)
          ...
      except Exception as e:
          self.field_context = ""
  \<close>
\<close>

definition then_stage ::
  "'s \<times> (exn + 'x) \<Rightarrow> ('x \<Rightarrow> 's \<Rightarrow> 's \<times> (exn + 'y)) \<Rightarrow> 's \<times> (exn + 'y)" where
  "then_stage r f = (case r of (s, Inl e) \<Rightarrow> (s, Inl e) | (s, Inr x) \<Rightarrow> f x s)"

definition generate_insights ::
  "('a, 'k, 'p) pipeline \<Rightarrow> 'p agent_state \<Rightarrow> paper list \<Rightarrow> string
     \<Rightarrow> 'p agent_state \<times> (exn + pydict list)" where
  "generate_insights P s papers topic =
     (let s0 = s\<lparr>conversation_log := []\<rparr>;
          papers_for_agents = (if length papers > 5 then take 5 papers else papers);
          s1 = (case intelligence P of
                  None \<Rightarrow> s0
                | Some ri \<Rightarrow>
                    if topic \<noteq> []
                    then (case ri papers topic of
                            Inl e \<Rightarrow> s0\<lparr>field_context := []\<rparr>
                          | Inr fc \<Rightarrow> s0\<lparr>field_context := fc\<rparr>)
                    else s0)
      in then_stage (analyzer_stage P papers papers_for_agents topic s1) (\<lambda>analyzer_result s2.
         then_stage (skeptic_stage P papers_for_agents analyzer_result topic s2) (\<lambda>skeptic_result s3.
         then_stage (synthesizer_stage P papers_for_agents analyzer_result skeptic_result topic s3)
           (\<lambda>validated_insights_for_stats s4.
         validator_stage P validated_insights_for_stats topic s4))))"

text \<open>
  The fixed fields of the entries that a run leaves in the log when its first \<open>n\<close> stages
  have returned.
\<close>

definition expected_log :: "nat \<Rightarrow> (nat \<times> string \<times> string list \<times> string) list" where
  "expected_log n =
     take n [(1, ''Analyzer'', [], ''observation''),
             (2, ''Skeptic'', [''Analyzer''], ''challenge''),
             (3, ''Synthesizer'', [''Analyzer'', ''Skeptic''], ''synthesis''),
             (4, ''Validator'', [''Synthesizer''], ''validation'')]"

definition entry_head :: "'p log_entry \<Rightarrow> nat \<times> string \<times> string list \<times> string" where
  "entry_head e = (turn e, agent e, responding_to e, message_type e)"

section \<open>Properties of the search query\<close>






section \<open>Properties of the arXiv client\<close>





section \<open>Properties of the validator\<close>

lemma map_of_dict_set: "map_of (dict_set k v d) k' = (if k' = k then Some v else map_of d k')"
  by (simp add: dict_set_def update_conv')

lemma map_of_default_survive:
  "map_of (default_survive d) key =
     (if key = ''validated'' then Some (JBool True)
      else if key = ''survival_score'' then Some (JFloat 8.5)
      else if key = ''validation_evidence''
      then Some (JStr ''No contradicting prior work found in recent literature. Gap appears valid.'')
      else map_of d key)"
  by (simp add: default_survive_def map_of_dict_set)

lemma validate_one_no_papers:
  assumes "env_search env i (query_of (env_repr env) d topic) = Inr []
           \<or> (\<exists>e. env_search env i (query_of (env_repr env) d topic) = Inl e)"
  shows "validate_one env topic fc i (JObj d) = ([], Inr (Survived (default_survive d)))"
  using assms by (auto simp: validate_one_def Let_def)

lemma validate_one_calls:
  "(j, p) \<in> set (fst (validate_one env topic fc i x)) \<Longrightarrow> j = i"
  by (auto simp: validate_one_def Let_def split: json.splits sum.splits if_splits)

lemma validate_loop_calls:
  "(j, p) \<in> set (fst (validate_loop env topic fc i xs)) \<Longrightarrow>
     i \<le> j \<and> j < i + length xs \<and> (j, p) \<in> set (fst (validate_one env topic fc j (xs ! (j - i))))"
proof (induction xs arbitrary: i)
  case Nil
  then show ?case by simp
next
  case (Cons x xs)
  obtain c r where one: "validate_one env topic fc i x = (c, r)" by (cases "validate_one env topic fc i x")
  obtain c' r' where rest: "validate_loop env topic fc (i + 1) xs = (c', r')"
    by (cases "validate_loop env topic fc (i + 1) xs")
  from Cons.prems one rest have "(j, p) \<in> set c \<or> (j, p) \<in> set c'"
    by (auto split: sum.splits)
  then show ?case
  proof
    assume a: "(j, p) \<in> set c"
    with one have "j = i" using validate_one_calls [of j p env topic fc i x] by simp
    with a one show ?thesis by simp
  next
    assume "(j, p) \<in> set c'"
    with rest Cons.IH [of "i + 1"] have
      "i + 1 \<le> j \<and> j < i + 1 + length xs \<and> (j, p) \<in> set (fst (validate_one env topic fc j (xs ! (j - (i + 1)))))"
      by simp
    then show ?thesis by (auto simp: nth_Cons')
  qed
qed

lemma validate_loop_survivor:
  "validate_loop env topic fc i xs = (calls, Inr out) \<Longrightarrow> k < length xs \<Longrightarrow>
   snd (validate_one env topic fc (i + k) (xs ! k)) = Inr (Survived d) \<Longrightarrow> d \<in> set out"
proof (induction xs arbitrary: i k calls out)
  case Nil
  then show ?case by simp
next
  case (Cons x xs)
  obtain c r where one: "validate_one env topic fc i x = (c, r)" by (cases "validate_one env topic fc i x")
  obtain c' r' where rest: "validate_loop env topic fc (i + 1) xs = (c', r')"
    by (cases "validate_loop env topic fc (i + 1) xs")
  from Cons.prems(1) one rest obtain v vs where
    r: "r = Inr v" and r': "r' = Inr vs" and out: "out = (case v of Survived d \<Rightarrow> d # vs | _ \<Rightarrow> vs)"
    by (auto split: sum.splits)
  show ?case
  proof (cases k)
    case 0
    with Cons.prems(3) one r have "v = Survived d" by simp
    with out show ?thesis by simp
  next
    case (Suc k')
    with Cons.prems have "k' < length xs"
      "snd (validate_one env topic fc (i + 1 + k') (xs ! k')) = Inr (Survived d)" by simp_all
    with Cons.IH [of "i + 1" c' vs k'] rest r' have "d \<in> set vs" by simp
    with out show ?thesis by (cases v) simp_all
  qed
qed

lemma validate_loop_no_papers:
  "(\<And>q i. env_search env i q = Inr []) \<Longrightarrow>
   validate_loop env topic fc i (map JObj ds) = ([], Inr (map default_survive ds))"
  by (induction ds arbitrary: i) (simp_all add: validate_one_no_papers)

text \<open>
  C1. An insight (a dict) whose search gives no paper, or raises, survives by default:
  its pass makes no call of the language model and keeps the insight with \<open>validated\<close>
  \<open>True\<close>, \<open>survival_score\<close> 8.5 and the fixed evidence text, every other field as
  it was; whenever \<open>validate\<close> returns, that insight is in the returned list, and with a
  search that never finds a paper \<open>validate\<close> returns all the insights so marked.
\<close>

theorem validate_default_survive:
  assumes "k < length insights" and "insights ! k = JObj d"
    and "env_search env (Suc k) (query_of (env_repr env) d topic) = Inr []
         \<or> (\<exists>e. env_search env (Suc k) (query_of (env_repr env) d topic) = Inl e)"
  shows "validate_one env topic fc (Suc k) (insights ! k)
           = ([], Inr (Survived (default_survive d)))
     \<and> (\<forall>calls out. validate env insights topic fc = (calls, Inr out) \<longrightarrow>
           default_survive d \<in> set out \<and> Suc k \<notin> fst ` set calls)
     \<and> (\<forall>key. map_of (default_survive d) key =
           (if key = ''validated'' then Some (JBool True)
            else if key = ''survival_score'' then Some (JFloat 8.5)
            else if key = ''validation_evidence''
            then Some (JStr ''No contradicting prior work found in recent literature. Gap appears valid.'')
            else map_of d key))
     \<and> ((\<forall>q i. env_search env i q = Inr []) \<longrightarrow>
           (\<forall>ds. insights = map JObj ds \<longrightarrow>
              validate env insights topic fc = ([], Inr (map default_survive ds))))"
proof (intro conjI allI impI)
  show one: "validate_one env topic fc (Suc k) (insights ! k)
           = ([], Inr (Survived (default_survive d)))"
    using assms(2,3) validate_one_no_papers [of env "Suc k" d topic fc] by simp
  {
    fix calls out
    assume v: "validate env insights topic fc = (calls, Inr out)"
    obtain c r where loop: "validate_loop env topic fc 1 insights = (c, r)"
      by (cases "validate_loop env topic fc 1 insights")
    from v loop obtain vs where r: "r = Inr vs" and c: "c = calls"
      by (cases r) (auto simp: validate_def split: if_splits)
    have mem: "default_survive d \<in> set vs"
      using validate_loop_survivor [of env topic fc 1 insights c vs k "default_survive d"]
        loop r assms(1) one by simp
    then have "vs \<noteq> []" by auto
    with v loop r have "out = vs" by (simp add: validate_def)
    with mem show "default_survive d \<in> set out" by simp
    show "Suc k \<notin> fst ` set calls"
    proof
      assume "Suc k \<in> fst ` set calls"
      then obtain p where "(Suc k, p) \<in> set calls" by auto
      with loop c have "(Suc k, p) \<in> set (fst (validate_loop env topic fc 1 insights))" by simp
      from validate_loop_calls [OF this]
      have "(Suc k, p) \<in> set (fst (validate_one env topic fc (Suc k) (insights ! k)))" by simp
      with one show False by simp
    qed
  }
  show "map_of (default_survive d) key =
           (if key = ''validated'' then Some (JBool True)
            else if key = ''survival_score'' then Some (JFloat 8.5)
            else if key = ''validation_evidence''
            then Some (JStr ''No contradicting prior work found in recent literature. Gap appears valid.'')
            else map_of d key)" for key
    by (rule map_of_default_survive)
  {
    fix ds
    assume stub: "\<forall>q i. env_search env i q = Inr []" and ds: "insights = map JObj ds"
    have "validate_loop env topic fc 1 (map JObj ds) = ([], Inr (map default_survive ds))"
      using stub by (intro validate_loop_no_papers) simp
    with ds show "validate env insights topic fc = ([], Inr (map default_survive ds))"
      by (simp add: validate_def)
  }
qed

theorem validate_default_survive_witness:
  "validate
     \<lparr>env_repr = (\<lambda>v. []), env_search = (\<lambda>i q. Inr []), env_llm = (\<lambda>i p. []),
      env_loads = (\<lambda>s. Inl JSONDecodeError)\<rparr>
     [JObj [(''title'', JStr ''Sparse attention at scale''), (''novelty_score'', JInt 8)]]
     ''transformers'' []
   = ([], Inr [[(''title'', JStr ''Sparse attention at scale''), (''novelty_score'', JInt 8),
                (''validated'', JBool True), (''survival_score'', JFloat 8.5),
                (''validation_evidence'',
                 JStr ''No contradicting prior work found in recent literature. Gap appears valid.'')]])"
proof -
  let ?env = "\<lparr>env_repr = (\<lambda>v. []), env_search = (\<lambda>i q. Inr []), env_llm = (\<lambda>i p. []),
      env_loads = (\<lambda>s. Inl JSONDecodeError)\<rparr>"
  let ?d = "[(''title'', JStr ''Sparse attention at scale''), (''novelty_score'', JInt 8)]"
  have "\<forall>ds. [JObj ?d] = map JObj ds \<longrightarrow>
          validate ?env [JObj ?d] ''transformers'' [] = ([], Inr (map default_survive ds))"
    using validate_default_survive [of 0 "[JObj ?d]" ?d ?env "''transformers''" "[]"]
    by simp
  then have "[JObj ?d] = map JObj [?d] \<longrightarrow>
          validate ?env [JObj ?d] ''transformers'' [] = ([], Inr (map default_survive [?d]))"
    by (rule spec)
  then show ?thesis
    by (simp add: default_survive_def dict_set_def)
qed

lemma py_gt_num:
  "num_of a = Some x \<Longrightarrow> num_of b = Some y \<Longrightarrow> py_gt a b = Inr (x > y)"
  by (cases a; cases b) auto

lemma novelty_key_num:
  "novelty x = Some r \<Longrightarrow> \<exists>k. novelty_key x = Inr k \<and> num_of k = Some r"
  by (cases x) (auto simp: novelty_def novelty_key_def attr_get_def)

lemma max_loop_first_max:
  assumes "\<forall>x \<in> set xs. novelty x \<noteq> None"
    and "novelty best = Some b" and "num_of best_key = Some b"
  shows "\<exists>pre r post. max_loop best best_key xs = Inr r \<and> best # xs = pre @ r # post
           \<and> (\<forall>y \<in> set pre. the (novelty y) < the (novelty r))
           \<and> (\<forall>y \<in> set post. the (novelty y) \<le> the (novelty r))"
  using assms
proof (induction xs arbitrary: best best_key b)
  case Nil
  show ?case by (rule exI [of _ "[]"]) simp
next
  case (Cons x xs)
  from Cons.prems(1) obtain rx where rx: "novelty x = Some rx" by auto
  then obtain k where k: "novelty_key x = Inr k" "num_of k = Some rx"
    using novelty_key_num by blast
  have gt: "py_gt k best_key = Inr (rx > b)"
    using py_gt_num [OF k(2) Cons.prems(3)] .
  show ?case
  proof (cases "rx > b")
    case True
    have "\<forall>x \<in> set xs. novelty x \<noteq> None" using Cons.prems(1) by simp
    from Cons.IH [OF this rx k(2)] obtain pre r post where
      ih: "max_loop x k xs = Inr r" "x # xs = pre @ r # post"
        "\<forall>y \<in> set pre. the (novelty y) < the (novelty r)"
        "\<forall>y \<in> set post. the (novelty y) \<le> the (novelty r)" by blast
    have xr: "the (novelty x) \<le> the (novelty r)"
      using ih(2,3) by (cases pre) auto
    have res: "max_loop best best_key (x # xs) = Inr r"
      using k gt True ih(1) by (simp add: seq_def)
    have "best # x # xs = (best # pre) @ r # post" using ih(2) by simp
    moreover have "\<forall>y \<in> set (best # pre). the (novelty y) < the (novelty r)"
      using ih(3) xr True rx Cons.prems(2) by auto
    ultimately show ?thesis using res ih(4) by blast
  next
    case False
    have "\<forall>x \<in> set xs. novelty x \<noteq> None" using Cons.prems(1) by simp
    from Cons.IH [OF this Cons.prems(2) Cons.prems(3)] obtain pre r post where
      ih: "max_loop best best_key xs = Inr r" "best # xs = pre @ r # post"
        "\<forall>y \<in> set pre. the (novelty y) < the (novelty r)"
        "\<forall>y \<in> set post. the (novelty y) \<le> the (novelty r)" by blast
    have res: "max_loop best best_key (x # xs) = Inr r"
      using k gt False ih(1) by (simp add: seq_def)
    show ?thesis
    proof (cases pre)
      case Nil
      with ih(2) have "r = best" "post = xs" by simp_all
      then have "best # x # xs = [] @ r # (x # xs)"
        "\<forall>y \<in> set (x # xs). the (novelty y) \<le> the (novelty r)"
        using ih(4) False rx Cons.prems(2) by auto
      with res show ?thesis by (metis empty_iff list.set(1))
    next
      case (Cons p ps)
      with ih(2) have p: "p = best" "xs = ps @ r # post" by simp_all
      have "b < the (novelty r)" using ih(3) Cons p Cons.prems(2) by auto
      then have "\<forall>y \<in> set (best # x # ps). the (novelty y) < the (novelty r)"
        using ih(3) Cons p rx False by auto
      moreover have "best # x # xs = (best # x # ps) @ r # post" using p by simp
      ultimately show ?thesis using res ih(4) by blast
    qed
  qed
qed

lemma max_novelty_first_max:
  assumes "insights \<noteq> []" and "\<forall>x \<in> set insights. novelty x \<noteq> None"
  shows "\<exists>pre r post. max_novelty insights = Inr r \<and> insights = pre @ r # post
           \<and> (\<forall>y \<in> set pre. the (novelty y) < the (novelty r))
           \<and> (\<forall>y \<in> set post. the (novelty y) \<le> the (novelty r))"
proof -
  from assms(1) obtain x xs where xs: "insights = x # xs" by (cases insights) auto
  with assms(2) obtain b where b: "novelty x = Some b" by auto
  then obtain k where k: "novelty_key x = Inr k" "num_of k = Some b"
    using novelty_key_num by blast
  have "\<forall>y \<in> set xs. novelty y \<noteq> None" using assms(2) xs by simp
  from max_loop_first_max [OF this b k(2)] xs k(1) show ?thesis
    by (simp add: max_novelty_def seq_def)
qed

lemma validate_loop_all_rejected:
  "(\<And>k. k < length xs \<Longrightarrow> snd (validate_one env topic fc (i + k) (xs ! k)) = Inr Rejected) \<Longrightarrow>
   snd (validate_loop env topic fc i xs) = Inr []"
proof (induction xs arbitrary: i)
  case Nil
  show ?case by simp
next
  case (Cons x xs)
  have one: "snd (validate_one env topic fc i x) = Inr Rejected"
    using Cons.prems [of 0] by simp
  have "snd (validate_loop env topic fc (i + 1) xs) = Inr []"
  proof (rule Cons.IH)
    fix k assume "k < length xs"
    then show "snd (validate_one env topic fc (i + 1 + k) (xs ! k)) = Inr Rejected"
      using Cons.prems [of "Suc k"] by simp
  qed
  with one show ?case
    by (cases "validate_one env topic fc i x"; cases "validate_loop env topic fc (i + 1) xs") simp
qed

lemma map_of_resurrect:
  "map_of (resurrect d) key =
     (if key = ''validated'' then Some (JBool False)
      else if key = ''survival_score'' then Some (JFloat 5)
      else if key = ''validation_evidence''
      then Some (JStr ''All insights were challenged, but this had the highest novelty score.'')
      else map_of d key)"
  by (simp add: resurrect_def map_of_dict_set)

text \<open>
  C2. When every insight of a non-empty list of insights (dicts with numbers as novelty
  scores) is rejected, \<open>validate\<close> returns exactly one insight: the first one among those
  with the highest novelty score, with \<open>validated\<close> \<open>False\<close>, \<open>survival_score\<close> 5.0 and
  the fixed evidence text, every other field as it was. And \<open>validate\<close> never returns the
  empty list when the list holds a dict.
\<close>

theorem validate_terminal_fallback:
  "(insights \<noteq> [] \<and> (\<forall>x \<in> set insights. novelty x \<noteq> None) \<and>
    (\<forall>k < length insights.
        snd (validate_one env topic fc (Suc k) (insights ! k)) = Inr Rejected)
    \<longrightarrow> (\<exists>pre best post.
           snd (validate env insights topic fc) = Inr [resurrect best] \<and>
           insights = pre @ JObj best # post \<and>
           (\<forall>y \<in> set pre. the (novelty y) < the (novelty (JObj best))) \<and>
           (\<forall>y \<in> set post. the (novelty y) \<le> the (novelty (JObj best))) \<and>
           (\<forall>key. map_of (resurrect best) key =
              (if key = ''validated'' then Some (JBool False)
               else if key = ''survival_score'' then Some (JFloat 5)
               else if key = ''validation_evidence''
               then Some (JStr ''All insights were challenged, but this had the highest novelty score.'')
               else map_of best key))))
   \<and> ((\<exists>d. JObj d \<in> set insights) \<longrightarrow> snd (validate env insights topic fc) \<noteq> Inr [])"
proof (intro conjI impI)
  assume a: "insights \<noteq> [] \<and> (\<forall>x \<in> set insights. novelty x \<noteq> None) \<and>
    (\<forall>k < length insights.
        snd (validate_one env topic fc (Suc k) (insights ! k)) = Inr Rejected)"
  have loop: "snd (validate_loop env topic fc 1 insights) = Inr []"
    using a by (intro validate_loop_all_rejected) simp
  from a max_novelty_first_max [of insights] obtain pre r post where
    m: "max_novelty insights = Inr r" "insights = pre @ r # post"
       "\<forall>y \<in> set pre. the (novelty y) < the (novelty r)"
       "\<forall>y \<in> set post. the (novelty y) \<le> the (novelty r)" by blast
  from m(2) a have "novelty r \<noteq> None" by auto
  then obtain best where best: "r = JObj best"
    by (cases r) (auto simp: novelty_def)
  have "snd (validate env insights topic fc) = Inr [resurrect best]"
    using loop a m(1) best
    by (cases "validate_loop env topic fc 1 insights") (simp add: validate_def seq_def)
  with m best map_of_resurrect show "\<exists>pre best post.
           snd (validate env insights topic fc) = Inr [resurrect best] \<and>
           insights = pre @ JObj best # post \<and>
           (\<forall>y \<in> set pre. the (novelty y) < the (novelty (JObj best))) \<and>
           (\<forall>y \<in> set post. the (novelty y) \<le> the (novelty (JObj best))) \<and>
           (\<forall>key. map_of (resurrect best) key =
              (if key = ''validated'' then Some (JBool False)
               else if key = ''survival_score'' then Some (JFloat 5)
               else if key = ''validation_evidence''
               then Some (JStr ''All insights were challenged, but this had the highest novelty score.'')
               else map_of best key))"
    by blast
next
  assume "\<exists>d. JObj d \<in> set insights"
  then have ne: "insights \<noteq> []" by auto
  show "snd (validate env insights topic fc) \<noteq> Inr []"
  proof (cases "validate_loop env topic fc 1 insights")
    case (Pair calls r)
    show ?thesis
    proof (cases r)
      case (Inl e)
      with Pair show ?thesis by (simp add: validate_def)
    next
      case (Inr vs)
      with Pair ne show ?thesis
        by (auto simp: validate_def seq_def split: sum.splits json.splits)
    qed
  qed
qed

theorem validate_terminal_fallback_witness:
  "snd (validate
     \<lparr>env_repr = (\<lambda>v. []),
      env_search = (\<lambda>i q. Inr [\<lparr>title = ''Prior work'', abstract = ''Already done'',
                                  authors = [], year = 2023, url = None\<rparr>]),
      env_llm = (\<lambda>i p. ''no''),
      env_loads = (\<lambda>s. Inr (JObj [(''gap_still_valid'', JBool False),
                                    (''survival_score'', JInt 3)]))\<rparr>
     [JObj [(''title'', JStr ''A''), (''novelty_score'', JInt 7)],
      JObj [(''title'', JStr ''B''), (''novelty_score'', JFloat 9.5)]]
     ''transformers'' [])
   = Inr [[(''title'', JStr ''B''), (''novelty_score'', JFloat 9.5),
           (''validated'', JBool False), (''survival_score'', JFloat 5),
           (''validation_evidence'',
            JStr ''All insights were challenged, but this had the highest novelty score.'')]]"
proof -
  let ?env = "\<lparr>env_repr = (\<lambda>v. []),
      env_search = (\<lambda>i q. Inr [\<lparr>title = ''Prior work'', abstract = ''Already done'',
                                  authors = [], year = 2023, url = None\<rparr>]),
      env_llm = (\<lambda>i p. ''no''),
      env_loads = (\<lambda>s. Inr (JObj [(''gap_still_valid'', JBool False),
                                    (''survival_score'', JInt 3)]))\<rparr>"
  let ?a = "JObj [(''title'', JStr ''A''), (''novelty_score'', JInt 7)]"
  let ?b = "JObj [(''title'', JStr ''B''), (''novelty_score'', JFloat 9.5)]"
  have na: "novelty ?a = Some 7" and nb: "novelty ?b = Some 9.5"
    by (simp_all add: novelty_def dict_get_def)
  have r0: "snd (validate_one ?env ''transformers'' [] (Suc 0) ?a) = Inr Rejected"
    by code_simp
  have r1: "snd (validate_one ?env ''transformers'' [] (Suc (Suc 0)) ?b) = Inr Rejected"
    by code_simp
  have rej: "\<forall>k < length [?a, ?b].
      snd (validate_one ?env ''transformers'' [] (Suc k) ([?a, ?b] ! k)) = Inr Rejected"
    using r0 r1 by (simp add: less_Suc_eq)
  have "[?a, ?b] \<noteq> [] \<and> (\<forall>x \<in> set [?a, ?b]. novelty x \<noteq> None) \<and>
    (\<forall>k < length [?a, ?b].
        snd (validate_one ?env ''transformers'' [] (Suc k) ([?a, ?b] ! k)) = Inr Rejected)"
  proof -
    have "novelty ?a \<noteq> None \<and> novelty ?b \<noteq> None" unfolding na nb by blast
    then have "\<forall>x \<in> set [?a, ?b]. novelty x \<noteq> None" by simp
    with rej show ?thesis by blast
  qed
  with validate_terminal_fallback [of "[?a, ?b]" ?env "''transformers''" "[]"]
  obtain pre best post where
    v: "snd (validate ?env [?a, ?b] ''transformers'' []) = Inr [resurrect best]"
    and sp: "[?a, ?b] = pre @ JObj best # post"
    and lt: "\<forall>y \<in> set pre. the (novelty y) < the (novelty (JObj best))"
    and le: "\<forall>y \<in> set post. the (novelty y) \<le> the (novelty (JObj best))"
    by blast
  have "JObj best = ?b"
  proof (cases pre)
    case Nil
    with sp have "JObj best = ?a" "post = [?b]" by simp_all
    with le na nb show ?thesis by simp
  next
    case (Cons p ps)
    with sp show ?thesis by (cases ps) simp_all
  qed
  then have "best = [(''title'', JStr ''B''), (''novelty_score'', JFloat 9.5)]" by simp
  with v show ?thesis by (simp add: resurrect_def dict_set_def)
qed

lemma validated_set_scores:
  "map_of (set_scores v s e d) ''validated'' = Some (JBool True)
   \<and> map_of (set_scores v s e d) ''survival_score'' = Some s"
  by (simp add: set_scores_def Let_def map_of_dict_set)

lemma validated_set_experiment_evaluation:
  "set_experiment_evaluation v d = Inr d' \<Longrightarrow>
     map_of d' ''validated'' = map_of d ''validated''
     \<and> map_of d' ''survival_score'' = map_of d ''survival_score''"
  by (auto simp: set_experiment_evaluation_def Let_def map_of_dict_set
           split: if_splits json.splits)

lemma validated_apply_refinement:
  "apply_refinement v ob g d = Inr d' \<Longrightarrow>
     map_of d' ''validated'' = map_of d ''validated''
     \<and> map_of d' ''survival_score'' = map_of d ''survival_score''"
  by (auto simp: apply_refinement_def Let_def seq_def map_of_dict_set
           split: if_splits sum.splits)


lemma survived_validated:
  "snd (validate_one env topic fc i x) = Inr (Survived d') \<Longrightarrow>
     map_of d' ''validated'' = Some (JBool True)"
proof -
  assume a: "snd (validate_one env topic fc i x) = Inr (Survived d')"
  have ds: "map_of (default_survive d) ''validated'' = Some (JBool True)" for d
    by (simp add: map_of_default_survive)
  have inc: "map_of (inconclusive d) ''validated'' = Some (JBool True)" for d
    by (simp add: inconclusive_def map_of_dict_set)
  have aj: "map_of d' ''validated'' = Some (JBool True)"
    if "apply_judgement d v = Inr (Survived d')" for d v
  proof -
    from that obtain ge6 i1 s e where
      i1: "set_experiment_evaluation v (set_scores v s e d) = Inr i1"
      and i2: "apply_refinement v (dict_get d ''observation'' (JStr []))
               (dict_get d ''gap'' (JStr [])) i1 = Inr d'"
      by (auto simp: apply_judgement_def Let_def seq_def split: sum.splits if_splits)
    from validated_apply_refinement [OF i2] validated_set_experiment_evaluation [OF i1]
      validated_set_scores [of v s e d]
    show ?thesis by simp
  qed
  from a show ?thesis
    by (auto simp: validate_one_def Let_def seq_def ds inc
             split: json.splits sum.splits if_splits option.splits dest: aj)
qed







section \<open>Properties of the structured extraction\<close>

lemma guarded_first_success:
  "guarded m body (Inr (first_success loads ss))
     = Inr (first_success loads ((case m of None \<Rightarrow> [] | Some g \<Rightarrow> [f g]) @ ss))"
  if "\<And>g. body g = loads (f g)"
  using that by (cases m) (auto simp: guarded_def split: sum.splits)

lemma extract_json_first_success:
  assumes "\<not> (text = [] \<or> startswith text ''Error:'')"
  shows "extract_json loads text = Inr (first_success loads (parse_attempts text))"
proof -
  let ?t = "py_strip text"
  have obj: "guarded (greedy_span (CHR ''{'') (CHR ''}'') ?t)
               (\<lambda>g. loads (fallback_candidate (CHR ''{'') (CHR ''}'') g)) (Inr JNull)
             = Inr (first_success loads
                 ((case greedy_span (CHR ''{'') (CHR ''}'') ?t of
                     None \<Rightarrow> [] | Some g \<Rightarrow> [fallback_candidate (CHR ''{'') (CHR ''}'') g]) @ []))"
    using guarded_first_success [of "\<lambda>g. loads (fallback_candidate (CHR ''{'') (CHR ''}'') g)"
        loads "fallback_candidate (CHR ''{'') (CHR ''}'')" _ "[]"]
    by simp
  show ?thesis
    using assms
    by (simp add: extract_json_def parse_attempts_def Let_def obj
          guarded_first_success [of "\<lambda>g. loads (fallback_candidate (CHR ''['') (CHR '']'') g)"
             loads "fallback_candidate (CHR ''['') (CHR '']'')"]
          guarded_first_success [of "\<lambda>g. loads (clean_json (py_strip g))"
             loads "\<lambda>g. clean_json (py_strip g)"]
          split: sum.splits)
qed

lemma first_success_all_fail:
  "(\<forall>s \<in> set ss. \<exists>e. loads s = Inl e) \<Longrightarrow> first_success loads ss = JNull"
  by (induction ss) auto

text \<open>
  C5. \<open>extract_json\<close> never raises: for every parser and every text it returns a value.
  It returns null when the text is empty or starts with \<open>Error:\<close>, and when every parse
  attempt fails; otherwise it returns what the first attempt that parses gives.
\<close>

theorem extract_json_never_raises:
  "(\<exists>v. extract_json loads text = Inr v)
   \<and> (text = [] \<or> startswith text ''Error:'' \<longrightarrow> extract_json loads text = Inr JNull)
   \<and> ((\<forall>s \<in> set (parse_attempts text). \<exists>e. loads s = Inl e) \<longrightarrow>
         extract_json loads text = Inr JNull)
   \<and> (\<not> (text = [] \<or> startswith text ''Error:'') \<longrightarrow>
         extract_json loads text = Inr (first_success loads (parse_attempts text)))"
proof -
  have g: "text = [] \<or> startswith text ''Error:'' \<Longrightarrow> extract_json loads text = Inr JNull"
    by (simp add: extract_json_def)
  have f: "\<not> (text = [] \<or> startswith text ''Error:'') \<Longrightarrow>
         extract_json loads text = Inr (first_success loads (parse_attempts text))"
    by (rule extract_json_first_success)
  have a: "(\<forall>s \<in> set (parse_attempts text). \<exists>e. loads s = Inl e) \<Longrightarrow>
         extract_json loads text = Inr JNull"
    using g f first_success_all_fail [of "parse_attempts text" loads] by fastforce
  from g f a show ?thesis by blast
qed

theorem extract_json_never_raises_witness:
  "extract_json (\<lambda>s. Inl JSONDecodeError) ''no json [in here'' = Inr JNull
   \<and> extract_json (\<lambda>s. Inr (JInt 1)) ''Error: No candidates in response'' = Inr JNull"
proof -
  have "\<forall>s \<in> set (parse_attempts ''no json [in here''). \<exists>e. (\<lambda>s. Inl JSONDecodeError :: exn + json) s = Inl e"
    by simp
  then have "extract_json (\<lambda>s. Inl JSONDecodeError) ''no json [in here'' = Inr JNull"
    using extract_json_never_raises [of "\<lambda>s. Inl JSONDecodeError" "''no json [in here''"]
    by blast
  moreover have "startswith ''Error: No candidates in response'' ''Error:''"
    by (simp add: startswith_def)
  then have "extract_json (\<lambda>s. Inr (JInt 1)) ''Error: No candidates in response'' = Inr JNull"
    using extract_json_never_raises [of "\<lambda>s. Inr (JInt 1)" "''Error: No candidates in response''"]
    by blast
  ultimately show ?thesis by blast
qed















section \<open>Properties of the synthesizer\<close>












section \<open>Properties of the orchestrator\<close>

lemma analyzer_stage_log:
  "analyzer_stage P papers pfa topic s = (s', r) \<Longrightarrow>
     (case r of
        Inr x \<Rightarrow> \<exists>p. conversation_log s' = conversation_log s
                  @ [\<lparr>turn = 1, agent = ''Analyzer'', responding_to = [],
                      message_type = ''observation'', payload = p\<rparr>]
      | Inl e \<Rightarrow> conversation_log s' = conversation_log s)"
  by (auto simp: analyzer_stage_def log_append_def split: sum.splits)

lemma skeptic_stage_log:
  "skeptic_stage P pfa a topic s = (s', r) \<Longrightarrow>
     (case r of
        Inr x \<Rightarrow> \<exists>p. conversation_log s' = conversation_log s
                  @ [\<lparr>turn = 2, agent = ''Skeptic'', responding_to = [''Analyzer''],
                      message_type = ''challenge'', payload = p\<rparr>]
      | Inl e \<Rightarrow> conversation_log s' = conversation_log s)"
  by (auto simp: skeptic_stage_def log_append_def split: sum.splits)

lemma synthesizer_stage_log:
  "synthesizer_stage P pfa a k topic s = (s', r) \<Longrightarrow>
     (case r of
        Inr x \<Rightarrow> \<exists>p. conversation_log s' = conversation_log s
                  @ [\<lparr>turn = 3, agent = ''Synthesizer'', responding_to = [''Analyzer'', ''Skeptic''],
                      message_type = ''synthesis'', payload = p\<rparr>]
      | Inl e \<Rightarrow> conversation_log s' = conversation_log s)"
  by (auto simp: synthesizer_stage_def log_append_def Let_def split: sum.splits)

lemma validator_stage_log:
  "validator_stage P ins topic s = (s', r) \<Longrightarrow>
     (case r of
        Inr x \<Rightarrow> \<exists>p. conversation_log s' = conversation_log s
                  @ [\<lparr>turn = 4, agent = ''Validator'', responding_to = [''Synthesizer''],
                      message_type = ''validation'', payload = p\<rparr>]
      | Inl e \<Rightarrow> conversation_log s' = conversation_log s)"
  by (auto simp: validator_stage_def log_append_def split: sum.splits)

lemma generate_insights_log_general:
  assumes "generate_insights P s papers topic = (s', r)"
  shows "case r of
           Inr res \<Rightarrow> map entry_head (conversation_log s') = expected_log 4
         | Inl e \<Rightarrow> \<exists>n < 4. map entry_head (conversation_log s') = expected_log n"
proof -
  define s1 where "s1 = (case intelligence P of
                  None \<Rightarrow> s\<lparr>conversation_log := []\<rparr>
                | Some ri \<Rightarrow>
                    if topic \<noteq> []
                    then (case ri papers topic of
                            Inl e \<Rightarrow> s\<lparr>conversation_log := [], field_context := []\<rparr>
                          | Inr fc \<Rightarrow> s\<lparr>conversation_log := [], field_context := fc\<rparr>)
                    else s\<lparr>conversation_log := []\<rparr>)"
  define pfa where "pfa = (if length papers > 5 then take 5 papers else papers)"
  have l1: "conversation_log s1 = []"
    by (simp add: s1_def split: option.splits sum.splits)
  have gi: "generate_insights P s papers topic =
      then_stage (analyzer_stage P papers pfa topic s1) (\<lambda>a s2.
      then_stage (skeptic_stage P pfa a topic s2) (\<lambda>k s3.
      then_stage (synthesizer_stage P pfa a k topic s3) (\<lambda>ins s4.
      validator_stage P ins topic s4)))"
    by (simp add: generate_insights_def Let_def s1_def pfa_def)
  obtain s2 r2 where a: "analyzer_stage P papers pfa topic s1 = (s2, r2)"
    by (cases "analyzer_stage P papers pfa topic s1")
  note al = analyzer_stage_log [OF a]
  show ?thesis
  proof (cases r2)
    case (Inl e)
    with a gi assms have "s' = s2" "r = Inl e" by (simp_all add: then_stage_def)
    with al Inl l1 have "map entry_head (conversation_log s') = expected_log 0"
      by (simp add: expected_log_def)
    with \<open>r = Inl e\<close> show ?thesis by simp (rule exI [of _ "0::nat"], simp)
  next
    case (Inr av)
    with al l1 have log2: "map entry_head (conversation_log s2) = expected_log 1"
      by (auto simp: expected_log_def entry_head_def)
    obtain s3 r3 where k: "skeptic_stage P pfa av topic s2 = (s3, r3)"
      by (cases "skeptic_stage P pfa av topic s2")
    note kl = skeptic_stage_log [OF k]
    show ?thesis
    proof (cases r3)
      case (Inl e)
      with a Inr k gi assms have "s' = s3" "r = Inl e" by (simp_all add: then_stage_def)
      with kl Inl log2 have "map entry_head (conversation_log s') = expected_log 1" by simp
      with \<open>r = Inl e\<close> show ?thesis by simp (rule exI [of _ "1::nat"], simp)
    next
      case (Inr kv)
      with kl log2 have log3: "map entry_head (conversation_log s3) = expected_log 2"
        by (auto simp: expected_log_def entry_head_def)
      obtain s4 r4 where y: "synthesizer_stage P pfa av kv topic s3 = (s4, r4)"
        by (cases "synthesizer_stage P pfa av kv topic s3")
      note yl = synthesizer_stage_log [OF y]
      show ?thesis
      proof (cases r4)
        case (Inl e)
        with a \<open>r2 = Inr av\<close> k \<open>r3 = Inr kv\<close> y gi assms have "s' = s4" "r = Inl e"
          by (simp_all add: then_stage_def)
        with yl Inl log3 have "map entry_head (conversation_log s') = expected_log 2" by simp
        with \<open>r = Inl e\<close> show ?thesis by simp (rule exI [of _ "2::nat"], simp)
      next
        case (Inr ins)
        with yl log3 have log4: "map entry_head (conversation_log s4) = expected_log 3"
          by (auto simp: expected_log_def entry_head_def)
        from a \<open>r2 = Inr av\<close> k \<open>r3 = Inr kv\<close> y Inr gi assms
        have v: "validator_stage P ins topic s4 = (s', r)"
          by (simp add: then_stage_def)
        note vl = validator_stage_log [OF v]
        show ?thesis
        proof (cases r)
          case (Inl e)
          with vl log4 have "map entry_head (conversation_log s') = expected_log 3" by simp
          with Inl show ?thesis by simp (rule exI [of _ "3::nat"], simp)
        next
          case (Inr res)
          with vl log4 have "map entry_head (conversation_log s') = expected_log 4"
            by (auto simp: expected_log_def entry_head_def)
          with Inr show ?thesis by simp
        qed
      qed
    qed
  qed
qed

lemma expected_log_4_fields:
  assumes "map entry_head lg = expected_log 4"
  shows "length lg = 4 \<and> map turn lg = [1, 2, 3, 4]
     \<and> map agent lg = [''Analyzer'', ''Skeptic'', ''Synthesizer'', ''Validator'']
     \<and> map responding_to lg = [[], [''Analyzer''], [''Analyzer'', ''Skeptic''], [''Synthesizer'']]
     \<and> map message_type lg = [''observation'', ''challenge'', ''synthesis'', ''validation'']"
proof -
  have t: "map turn lg = map fst (map entry_head lg)"
    and a: "map agent lg = map (\<lambda>h. fst (snd h)) (map entry_head lg)"
    and r: "map responding_to lg = map (\<lambda>h. fst (snd (snd h))) (map entry_head lg)"
    and m: "map message_type lg = map (\<lambda>h. snd (snd (snd h))) (map entry_head lg)"
    by (simp_all add: entry_head_def comp_def)
  have l: "length lg = length (map entry_head lg)" by simp
  show ?thesis
    unfolding t a r m l assms by (simp add: expected_log_def)
qed

lemma generate_insights_returns:
  assumes "\<And>x y z. \<exists>a. analyze_papers P x y z = Inr a"
    and "\<And>x a y z. \<exists>k. critique P x a y z = Inr k"
    and "\<And>x a k y z. \<exists>i. synthesize P x a k y z = Inr i"
    and "\<And>i y z. \<exists>v. run_validate P i y z = Inr v"
    and "\<And>a x. \<exists>p. analyzer_payload P a x = Inr p"
    and "\<And>k a. \<exists>p. skeptic_payload P k a = Inr p"
    and "\<And>i. \<exists>p. synthesizer_payload P i = Inr p"
    and "\<And>i v. \<exists>p. validator_payload P i v = Inr p"
  shows "\<exists>s' result. generate_insights P s papers topic = (s', Inr result)"
proof -
  have st1: "\<exists>s' a. analyzer_stage P x y z s0 = (s', Inr a)" for x y z s0
  proof -
    from assms(1) obtain a where a: "analyze_papers P y z (field_context s0) = Inr a" by blast
    from assms(5) obtain p where "analyzer_payload P a x = Inr p" by blast
    with a show ?thesis by (simp add: analyzer_stage_def)
  qed
  have st2: "\<exists>s' k. skeptic_stage P x a z s0 = (s', Inr k)" for x a z s0
  proof -
    from assms(2) obtain k where k: "critique P x a z (field_context s0) = Inr k" by blast
    from assms(6) obtain p where "skeptic_payload P k a = Inr p" by blast
    with k show ?thesis by (simp add: skeptic_stage_def)
  qed
  have st3: "\<exists>s' i. synthesizer_stage P x a k z s0 = (s', Inr i)" for x a k z s0
  proof -
    from assms(3) obtain i where i: "synthesize P x a k z (field_context s0) = Inr i" by blast
    from assms(7) obtain p where "synthesizer_payload P (only_dicts i) = Inr p" by blast
    with i show ?thesis by (simp add: synthesizer_stage_def)
  qed
  have st4: "\<exists>s' v. validator_stage P i z s0 = (s', Inr v)" for i z s0
  proof -
    from assms(4) obtain v where
      v: "run_validate P i (if z \<noteq> [] then z else ''research'') (field_context s0) = Inr v"
      by blast
    from assms(8) obtain p where "validator_payload P i v = Inr p" by blast
    with v show ?thesis by (simp add: validator_stage_def)
  qed
  define s1 where "s1 = (case intelligence P of
                  None \<Rightarrow> s\<lparr>conversation_log := []\<rparr>
                | Some ri \<Rightarrow>
                    if topic \<noteq> []
                    then (case ri papers topic of
                            Inl e \<Rightarrow> s\<lparr>conversation_log := [], field_context := []\<rparr>
                          | Inr fc \<Rightarrow> s\<lparr>conversation_log := [], field_context := fc\<rparr>)
                    else s\<lparr>conversation_log := []\<rparr>)"
  define pfa where "pfa = (if length papers > 5 then take 5 papers else papers)"
  have gi: "generate_insights P s papers topic =
      then_stage (analyzer_stage P papers pfa topic s1) (\<lambda>a s2.
      then_stage (skeptic_stage P pfa a topic s2) (\<lambda>k s3.
      then_stage (synthesizer_stage P pfa a k topic s3) (\<lambda>ins s4.
      validator_stage P ins topic s4)))"
    by (simp add: generate_insights_def Let_def s1_def pfa_def)
  from st1 obtain s2 a where a: "analyzer_stage P papers pfa topic s1 = (s2, Inr a)" by blast
  from st2 obtain s3 k where k: "skeptic_stage P pfa a topic s2 = (s3, Inr k)" by blast
  from st3 obtain s4 i where i: "synthesizer_stage P pfa a k topic s3 = (s4, Inr i)" by blast
  from st4 obtain s5 v where v: "validator_stage P i topic s4 = (s5, Inr v)" by blast
  from a k i v have "generate_insights P s papers topic = (s5, Inr v)"
    unfolding gi by (simp add: then_stage_def)
  then show ?thesis by blast
qed

text \<open>
  C8. Whatever the log held before, after a run of \<open>generate_insights\<close> that returns the
  log has exactly four entries, with turns 1 to 4, the agents Analyzer, Skeptic,
  Synthesizer and Validator in this order, and \<open>responding_to\<close> naming the agents whose
  output fed the stage. Each stage that returns appends exactly one entry to the log it
  finds. A run in which no agent raises does return.
\<close>

theorem generate_insights_conversation_log:
  "(\<forall>s' result. generate_insights P s papers topic = (s', Inr result) \<longrightarrow>
       length (conversation_log s') = 4
       \<and> map turn (conversation_log s') = [1, 2, 3, 4]
       \<and> map agent (conversation_log s') = [''Analyzer'', ''Skeptic'', ''Synthesizer'', ''Validator'']
       \<and> map responding_to (conversation_log s')
           = [[], [''Analyzer''], [''Analyzer'', ''Skeptic''], [''Synthesizer'']])
   \<and> (\<forall>s1 s2 x pfa. analyzer_stage P papers pfa topic s1 = (s2, Inr x) \<longrightarrow>
         (\<exists>p. conversation_log s2 = conversation_log s1
                 @ [\<lparr>turn = 1, agent = ''Analyzer'', responding_to = [],
                     message_type = ''observation'', payload = p\<rparr>]))
   \<and> (\<forall>s1 s2 x pfa a. skeptic_stage P pfa a topic s1 = (s2, Inr x) \<longrightarrow>
         (\<exists>p. conversation_log s2 = conversation_log s1
                 @ [\<lparr>turn = 2, agent = ''Skeptic'', responding_to = [''Analyzer''],
                     message_type = ''challenge'', payload = p\<rparr>]))
   \<and> (\<forall>s1 s2 x pfa a k. synthesizer_stage P pfa a k topic s1 = (s2, Inr x) \<longrightarrow>
         (\<exists>p. conversation_log s2 = conversation_log s1
                 @ [\<lparr>turn = 3, agent = ''Synthesizer'',
                     responding_to = [''Analyzer'', ''Skeptic''],
                     message_type = ''synthesis'', payload = p\<rparr>]))
   \<and> (\<forall>s1 s2 x ins. validator_stage P ins topic s1 = (s2, Inr x) \<longrightarrow>
         (\<exists>p. conversation_log s2 = conversation_log s1
                 @ [\<lparr>turn = 4, agent = ''Validator'', responding_to = [''Synthesizer''],
                     message_type = ''validation'', payload = p\<rparr>]))
   \<and> ((\<forall>x y z. \<exists>a. analyze_papers P x y z = Inr a)
        \<and> (\<forall>x a y z. \<exists>k. critique P x a y z = Inr k)
        \<and> (\<forall>x a k y z. \<exists>i. synthesize P x a k y z = Inr i)
        \<and> (\<forall>i y z. \<exists>v. run_validate P i y z = Inr v)
        \<and> (\<forall>a x. \<exists>p. analyzer_payload P a x = Inr p)
        \<and> (\<forall>k a. \<exists>p. skeptic_payload P k a = Inr p)
        \<and> (\<forall>i. \<exists>p. synthesizer_payload P i = Inr p)
        \<and> (\<forall>i v. \<exists>p. validator_payload P i v = Inr p)
        \<longrightarrow> (\<exists>s' result. generate_insights P s papers topic = (s', Inr result)))"
proof (intro conjI allI impI)
  fix s' result
  assume g: "generate_insights P s papers topic = (s', Inr result)"
  from generate_insights_log_general [OF g]
  have "map entry_head (conversation_log s') = expected_log 4" by simp
  from expected_log_4_fields [OF this]
  show "length (conversation_log s') = 4"
    and "map turn (conversation_log s') = [1, 2, 3, 4]"
    and "map agent (conversation_log s') = [''Analyzer'', ''Skeptic'', ''Synthesizer'', ''Validator'']"
    and "map responding_to (conversation_log s')
           = [[], [''Analyzer''], [''Analyzer'', ''Skeptic''], [''Synthesizer'']]"
    by blast+
next
  fix s1 s2 x pfa
  assume "analyzer_stage P papers pfa topic s1 = (s2, Inr x)"
  from analyzer_stage_log [OF this]
  show "\<exists>p. conversation_log s2 = conversation_log s1
                 @ [\<lparr>turn = 1, agent = ''Analyzer'', responding_to = [],
                     message_type = ''observation'', payload = p\<rparr>]" by simp
next
  fix s1 s2 x pfa a
  assume "skeptic_stage P pfa a topic s1 = (s2, Inr x)"
  from skeptic_stage_log [OF this]
  show "\<exists>p. conversation_log s2 = conversation_log s1
                 @ [\<lparr>turn = 2, agent = ''Skeptic'', responding_to = [''Analyzer''],
                     message_type = ''challenge'', payload = p\<rparr>]" by simp
next
  fix s1 s2 x pfa a k
  assume "synthesizer_stage P pfa a k topic s1 = (s2, Inr x)"
  from synthesizer_stage_log [OF this]
  show "\<exists>p. conversation_log s2 = conversation_log s1
                 @ [\<lparr>turn = 3, agent = ''Synthesizer'',
                     responding_to = [''Analyzer'', ''Skeptic''],
                     message_type = ''synthesis'', payload = p\<rparr>]" by simp
next
  fix s1 s2 x ins
  assume "validator_stage P ins topic s1 = (s2, Inr x)"
  from validator_stage_log [OF this]
  show "\<exists>p. conversation_log s2 = conversation_log s1
                 @ [\<lparr>turn = 4, agent = ''Validator'', responding_to = [''Synthesizer''],
                     message_type = ''validation'', payload = p\<rparr>]" by simp
next
  assume a: "(\<forall>x y z. \<exists>a. analyze_papers P x y z = Inr a)
        \<and> (\<forall>x a y z. \<exists>k. critique P x a y z = Inr k)
        \<and> (\<forall>x a k y z. \<exists>i. synthesize P x a k y z = Inr i)
        \<and> (\<forall>i y z. \<exists>v. run_validate P i y z = Inr v)
        \<and> (\<forall>a x. \<exists>p. analyzer_payload P a x = Inr p)
        \<and> (\<forall>k a. \<exists>p. skeptic_payload P k a = Inr p)
        \<and> (\<forall>i. \<exists>p. synthesizer_payload P i = Inr p)
        \<and> (\<forall>i v. \<exists>p. validator_payload P i v = Inr p)"
  show "\<exists>s' result. generate_insights P s papers topic = (s', Inr result)"
  proof -
    note c = a [THEN conjunct1] a [THEN conjunct2, THEN conjunct1]
      a [THEN conjunct2, THEN conjunct2, THEN conjunct1]
      a [THEN conjunct2, THEN conjunct2, THEN conjunct2, THEN conjunct1]
      a [THEN conjunct2, THEN conjunct2, THEN conjunct2, THEN conjunct2, THEN conjunct1]
      a [THEN conjunct2, THEN conjunct2, THEN conjunct2, THEN conjunct2, THEN conjunct2,
         THEN conjunct1]
      a [THEN conjunct2, THEN conjunct2, THEN conjunct2, THEN conjunct2, THEN conjunct2,
         THEN conjunct2, THEN conjunct1]
      a [THEN conjunct2, THEN conjunct2, THEN conjunct2, THEN conjunct2, THEN conjunct2,
         THEN conjunct2, THEN conjunct2]
    show ?thesis
      by (rule generate_insights_returns) (rule c [rule_format])+
  qed
qed

theorem generate_insights_conversation_log_witness:
  "map turn (conversation_log (fst (generate_insights
      \<lparr>intelligence = None,
       analyze_papers = (\<lambda>ps t fc. Inr ()),
       critique = (\<lambda>ps a t fc. Inr ()),
       synthesize = (\<lambda>ps a k t fc. Inr [JObj [(''title'', JStr ''A'')], JNull]),
       run_validate = (\<lambda>ins t fc. Inr ins),
       analyzer_payload = (\<lambda>a ps. Inr ()),
       skeptic_payload = (\<lambda>k a. Inr ()),
       synthesizer_payload = (\<lambda>ins. Inr ()),
       validator_payload = (\<lambda>ins v. Inr ())\<rparr>
      \<lparr>conversation_log = [\<lparr>turn = 4, agent = ''Validator'', responding_to = [''Synthesizer''],
                              message_type = ''validation'', payload = ()\<rparr>],
       field_context = []\<rparr>
      [] ''transformers''))) = [1, 2, 3, 4]"
proof -
  let ?P = "\<lparr>intelligence = None,
       analyze_papers = (\<lambda>ps t fc. Inr ()),
       critique = (\<lambda>ps a t fc. Inr ()),
       synthesize = (\<lambda>ps a k t fc. Inr [JObj [(''title'', JStr ''A'')], JNull]),
       run_validate = (\<lambda>ins t fc. Inr ins),
       analyzer_payload = (\<lambda>a ps. Inr ()),
       skeptic_payload = (\<lambda>k a. Inr ()),
       synthesizer_payload = (\<lambda>ins. Inr ()),
       validator_payload = (\<lambda>ins v. Inr ())\<rparr>
         :: (unit, unit, unit) pipeline"
  let ?s = "\<lparr>conversation_log = [\<lparr>turn = 4, agent = ''Validator'', responding_to = [''Synthesizer''],
                              message_type = ''validation'', payload = ()\<rparr>],
       field_context = []\<rparr>"
  have r: "snd (generate_insights ?P ?s [] ''transformers'') = Inr [[(''title'', JStr ''A'')]]"
    by (simp add: generate_insights_def then_stage_def analyzer_stage_def skeptic_stage_def
          synthesizer_stage_def validator_stage_def log_append_def)
  then have "generate_insights ?P ?s [] ''transformers''
      = (fst (generate_insights ?P ?s [] ''transformers''), Inr [[(''title'', JStr ''A'')]])"
    by (metis prod.collapse)
  with generate_insights_conversation_log [of ?P ?s "[]" "''transformers''", THEN conjunct1]
  show ?thesis by blast
qed

end
